theory Spec2Isabelle
  imports Complex_Main
begin

section \<open>Data model\<close>

text \<open>
  The dashboard loads every activity into a pandas DataFrame; a row of that frame is the
  record below, one field per column read in \<^verbatim>\<open>update_figure\<close> and
  \<^verbatim>\<open>update_calendar\<close>. Floating-point columns are idealised as \<open>real\<close>;
  \<open>recorded\<close> is the timestamp of the activity as seconds on the absolute time line (the
  difference of two timestamps, \<^verbatim>\<open>.total_seconds()\<close>, is the difference of these),
  and \<open>recorded_date\<close> is \<^verbatim>\<open>df['recorded'].dt.date\<close>, the local calendar date of that
  timestamp as a proleptic Gregorian ordinal (\<^verbatim>\<open>date.toordinal()\<close>).
\<close>

datatype error = IndexError | OverflowError | ValueError

record row =
  id_col :: int
  recorded :: real
  recorded_date :: int
  tss :: real
  title :: string
  description :: string
  elapsed_time_s :: real
  moving_time_s :: real
  distance_m :: real
  elevation_m :: real

type_synonym dataframe = "row list"

section \<open>Training-load calculator\<close>

text \<open>
  \<^verbatim>\<open>calc_ctl_atl\<close> keeps four Python lists and appends one element to each per loop
  iteration; at the end they become the columns \<^verbatim>\<open>ATL_pre\<close>, \<^verbatim>\<open>CTL_pre\<close>,
  \<^verbatim>\<open>ATL_post\<close>, \<^verbatim>\<open>CTL_post\<close> of the frame.
\<close>

record load_cols =
  atl_pre :: "real list"
  atl_post :: "real list"
  ctl_pre :: "real list"
  ctl_post :: "real list"

definition delta_t_days :: "dataframe \<Rightarrow> nat \<Rightarrow> real" where
  "delta_t_days df i = (recorded (df ! i) - recorded (df ! (i - 1))) / (3600 * 24)"

text \<open>
  One iteration of \<^verbatim>\<open>for i in range(1, len(df))\<close>. The base of \<^verbatim>\<open>**\<close> is a positive
  float and the exponent a float, which is \<open>powr\<close> on the reals (a double power that
  overflows raises OverflowError, which needs a large negative gap and so an unsorted
  frame). Every index read here is in range when the loop reaches \<open>i\<close>: the four lists
  have length \<open>i\<close> and \<open>i < len(df)\<close>.
\<close>

definition calc_step :: "dataframe \<Rightarrow> nat \<Rightarrow> load_cols \<Rightarrow> load_cols" where
  "calc_step df i s =
     \<lparr> atl_pre = atl_pre s @
         [(atl_pre s ! (i - 1) + tss (df ! (i - 1)) / 7) * (6 / 7) powr delta_t_days df i],
       atl_post = atl_post s @
         [tss (df ! i) / 7 + atl_post s ! (i - 1) * (6 / 7) powr delta_t_days df i],
       ctl_pre = ctl_pre s @
         [(ctl_pre s ! (i - 1) + tss (df ! (i - 1)) / 42) * (41 / 42) powr delta_t_days df i],
       ctl_post = ctl_post s @
         [tss (df ! i) / 42 + ctl_post s ! (i - 1) * (41 / 42) powr delta_t_days df i] \<rparr>"

definition calc_init :: "row \<Rightarrow> load_cols" where
  "calc_init r0 =
     \<lparr> atl_pre = [0], atl_post = [tss r0 / 7 + 0],
       ctl_pre = [0], ctl_post = [tss r0 / 42 + 0] \<rparr>"

text \<open>\<^verbatim>\<open>df['tss'].iloc[0]\<close> raises IndexError on an empty frame.\<close>

definition calc_ctl_atl :: "dataframe \<Rightarrow> error + load_cols" where
  "calc_ctl_atl df =
     (case df of
        [] \<Rightarrow> Inl IndexError
      | r0 # _ \<Rightarrow> Inr (fold (calc_step df) [1..<length df] (calc_init r0)))"

text \<open>The state of the loop after the iterations \<open>1, \<dots>, k - 1\<close>.\<close>

definition calc_upto :: "dataframe \<Rightarrow> nat \<Rightarrow> load_cols" where
  "calc_upto df k = fold (calc_step df) [1..<k] (calc_init (df ! 0))"

section \<open>Python built-ins used by the views\<close>

text \<open>\<^verbatim>\<open>str\<close> of a non-negative and of an arbitrary integer (decimal, no padding).\<close>

definition digit_char :: "nat \<Rightarrow> char" where
  "digit_char d = ''0123456789'' ! d"

fun str_nat :: "nat \<Rightarrow> string" where
  "str_nat n = (if n < 10 then [digit_char n] else str_nat (n div 10) @ [digit_char (n mod 10)])"

declare str_nat.simps [simp del]

definition str_int :: "int \<Rightarrow> string" where
  "str_int i = (if i < 0 then CHR ''-'' # str_nat (nat (- i)) else str_nat (nat i))"

text \<open>
  \<^verbatim>\<open>round(x)\<close> on a float: the nearest integer, a tie going to the even neighbour.
\<close>

definition py_round :: "real \<Rightarrow> int" where
  "py_round x =
     (let f = \<lfloor>x\<rfloor>; d = x - of_int f
      in if d < 1 / 2 then f else if 1 / 2 < d then f + 1 else if even f then f else f + 1)"

text \<open>
  The format specification \<^verbatim>\<open>.Nf\<close>: the value rounded to \<open>N\<close> decimals (ties to even on
  the exact value), a sign for negative values, the fraction padded with zeros to \<open>N\<close>
  digits and no decimal point when \<open>N = 0\<close>. Python formats the binary double: a
  decimal that is a tie as a real number but not as a double (0.05 is stored slightly
  above) is rounded by Python by its stored value, here as a tie.
\<close>

definition format_f :: "nat \<Rightarrow> real \<Rightarrow> string" where
  "format_f n x =
     (let m = nat (py_round (\<bar>x\<bar> * 10 ^ n));
          ip = str_nat (m div 10 ^ n);
          fp = str_nat (m mod 10 ^ n)
      in (if x < 0 then ''-'' else []) @ ip @
         (if n = 0 then [] else CHR ''.'' # replicate (n - length fp) CHR ''0'' @ fp))"

section \<open>Calendar dates\<close>

text \<open>
  A \<^verbatim>\<open>datetime.date\<close> is represented by its proleptic Gregorian ordinal
  (\<^verbatim>\<open>date.toordinal()\<close>: 1 is 0001-01-01, a Monday); dates compare as their ordinals do.
  The functions below follow the \<^verbatim>\<open>datetime\<close> module: \<^verbatim>\<open>date.weekday()\<close> is
  \<^verbatim>\<open>(toordinal() + 6) % 7\<close>, and \<^verbatim>\<open>date \<plusminus> timedelta(n)\<close> raises OverflowError outside
  years 1 to 9999 (and \<^verbatim>\<open>timedelta(n)\<close> itself beyond 999999999 days).
\<close>

type_synonym date = int

definition max_ordinal :: int where
  "max_ordinal = 3652059"

definition weekday :: "date \<Rightarrow> int" where
  "weekday d = (d + 6) mod 7"

definition timedelta :: "int \<Rightarrow> error + int" where
  "timedelta n = (if \<bar>n\<bar> \<le> 999999999 then Inr n else Inl OverflowError)"

definition date_of_ordinal :: "int \<Rightarrow> error + date" where
  "date_of_ordinal n = (if 1 \<le> n \<and> n \<le> max_ordinal then Inr n else Inl OverflowError)"

definition date_sub :: "date \<Rightarrow> int \<Rightarrow> error + date" where
  "date_sub d n = (case timedelta n of Inl e \<Rightarrow> Inl e | Inr k \<Rightarrow> date_of_ordinal (d - k))"

definition date_add :: "date \<Rightarrow> int \<Rightarrow> error + date" where
  "date_add d n = (case timedelta n of Inl e \<Rightarrow> Inl e | Inr k \<Rightarrow> date_of_ordinal (d + k))"

definition is_leap :: "int \<Rightarrow> bool" where
  "is_leap y = (y mod 4 = 0 \<and> (y mod 100 \<noteq> 0 \<or> y mod 400 = 0))"

definition days_before_year :: "int \<Rightarrow> int" where
  "days_before_year y = (let p = y - 1 in p * 365 + p div 4 - p div 100 + p div 400)"

definition DAYS_IN_MONTH :: "int list" where
  "DAYS_IN_MONTH = [-1, 31, 28, 31, 30, 31, 30, 31, 31, 30, 31, 30, 31]"

definition DAYS_BEFORE_MONTH :: "int list" where
  "DAYS_BEFORE_MONTH = [-1, 0, 31, 59, 90, 120, 151, 181, 212, 243, 273, 304, 334]"

definition days_before_month :: "int \<Rightarrow> int \<Rightarrow> int" where
  "days_before_month y m =
     DAYS_BEFORE_MONTH ! nat m + (if 2 < m \<and> is_leap y then 1 else 0)"

definition ymd2ord :: "int \<Rightarrow> int \<Rightarrow> int \<Rightarrow> date" where
  "ymd2ord y m d = days_before_year y + days_before_month y m + d"

definition ord2ymd :: "date \<Rightarrow> int \<times> int \<times> int" where
  "ord2ymd ordinal =
     (let n = ordinal - 1;
          n400 = n div 146097; n = n mod 146097;
          year = n400 * 400 + 1;
          n100 = n div 36524; n = n mod 36524;
          n4 = n div 1461; n = n mod 1461;
          n1 = n div 365; n = n mod 365;
          year = year + n100 * 100 + n4 * 4 + n1
      in if n1 = 4 \<or> n100 = 4 then (year - 1, 12, 31)
         else
           let leapyear = (n1 = 3 \<and> (n4 \<noteq> 24 \<or> n100 = 3));
               month = (n + 50) div 32;
               preceding = DAYS_BEFORE_MONTH ! nat month
                             + (if 2 < month \<and> leapyear then 1 else 0)
           in if n < preceding
              then
                let month = month - 1;
                    preceding = preceding
                      - (DAYS_IN_MONTH ! nat month + (if month = 2 \<and> leapyear then 1 else 0))
                in (year, month, n - preceding + 1)
              else (year, month, n - preceding + 1))"

definition date_month :: "date \<Rightarrow> int" where
  "date_month d = fst (snd (ord2ymd d))"

definition date_day :: "date \<Rightarrow> int" where
  "date_day d = snd (snd (ord2ymd d))"

definition month_abbr :: "int \<Rightarrow> string" where
  "month_abbr m =
     [''Jan'', ''Feb'', ''Mar'', ''Apr'', ''May'', ''Jun'',
      ''Jul'', ''Aug'', ''Sep'', ''Oct'', ''Nov'', ''Dec''] ! nat (m - 1)"

text \<open>\<^verbatim>\<open>strftime("%b %-d")\<close> and \<^verbatim>\<open>strftime("%-d")\<close> in the C locale.\<close>

definition strftime_b_d :: "date \<Rightarrow> string" where
  "strftime_b_d d = month_abbr (date_month d) @ '' '' @ str_int (date_day d)"

definition strftime_d :: "date \<Rightarrow> string" where
  "strftime_d d = str_int (date_day d)"

section \<open>The helper module and the bubble figure\<close>

text \<open>
  The module \<^verbatim>\<open>application.util\<close> is imported by the dashboard; what the dashboard uses of
  it is a parameter of the model: two unit constants and three conversion functions.
  A pace is computed from a quotient of two columns, which pandas evaluates without
  raising when the divisor is zero (the quotient is then infinite or not a number):
  \<open>speed_to_pace\<close> receives \<open>None\<close> in that case. A quotient by the constant
  \<open>M_PER_MI\<close> is the real quotient, which presumes the constant is not zero.
\<close>

datatype cell = Str string | Num real

record util =
  M_PER_MI :: real
  FT_PER_M :: real
  seconds_to_string :: "real \<Rightarrow> string"
  string_to_seconds :: "cell \<Rightarrow> error + real"
  speed_to_pace :: "real option \<Rightarrow> string"

text \<open>
  The one trace of a week figure, as far as the dashboard writes or reads it:
  \<^verbatim>\<open>fig.data[0].x\<close>, \<^verbatim>\<open>.text\<close>, \<^verbatim>\<open>.marker.size\<close>, \<^verbatim>\<open>.marker.sizeref\<close>,
  \<^verbatim>\<open>.customdata\<close> (an object array: strings stay strings, numbers stay numbers), the
  x positions of the \<^verbatim>\<open>Rest\<close> annotations and \<^verbatim>\<open>layout.transition.duration\<close>.
  The validation plotly runs when a figure is built or assigned to (a negative marker
  size raises ValueError) is not modelled: the figures considered are ones plotly accepts.
\<close>

record figure =
  trace_x :: "int list"
  trace_text :: "string list"
  marker_size :: "real list"
  marker_sizeref :: real
  customdata :: "cell list list"
  rest_annotations :: "int list"
  transition_duration :: "real option"

section \<open>Weekly summary\<close>

record week_sum =
  date_str :: string
  time_str :: string
  elevation_str :: string
  distance_str :: string

text \<open>Lines 326 to 331 of \<^verbatim>\<open>create_week_sum\<close>: the label of the week's span.\<close>

definition week_date_str :: "date \<Rightarrow> error + string" where
  "week_date_str date_start =
     (case date_add date_start 6 of
        Inl e \<Rightarrow> Inl e
      | Inr date_end \<Rightarrow>
          Inr (if date_month date_start \<noteq> date_month date_end
               then strftime_b_d date_start @ ''-'' @ strftime_b_d date_end
               else strftime_b_d date_start @ ''-'' @ strftime_d date_end))"

text \<open>Lines 334 to 340: the display of the week's summed moving time.\<close>

definition moving_time_str :: "real \<Rightarrow> string" where
  "moving_time_str moving_time =
     (if moving_time < 30 then ''--:--''
      else
        let hrs = \<lfloor>moving_time / 3600\<rfloor>;
            mins = py_round ((moving_time - of_int hrs * 3600) / 60)
        in str_int hrs @ ''h'' @ str_int mins @ ''m'')"

definition create_week_sum :: "util \<Rightarrow> dataframe \<Rightarrow> date \<Rightarrow> error + week_sum" where
  "create_week_sum u df_week date_start =
     (case week_date_str date_start of
        Inl e \<Rightarrow> Inl e
      | Inr ds \<Rightarrow>
          Inr \<lparr> date_str = ds,
                time_str = moving_time_str (sum_list (map moving_time_s df_week)),
                elevation_str =
                  str_int (py_round (sum_list (map elevation_m df_week) * FT_PER_M u)) @ '' ft'',
                distance_str =
                  format_f 1 (sum_list (map distance_m df_week) / M_PER_MI u) @ '' mi'' \<rparr>)"

section \<open>Week bubble chart\<close>

definition quotient :: "real \<Rightarrow> real \<Rightarrow> real option" where
  "quotient a b = (if b = 0 then None else Some (a / b))"

definition customdata_row :: "util \<Rightarrow> string \<Rightarrow> row \<Rightarrow> cell list" where
  "customdata_row u recorded_str r =
     [Str recorded_str,
      Num (of_int (id_col r)),
      Str (title r),
      Str (take 50 (description r) @ '' ...''),
      Num (distance_m r / M_PER_MI u),
      Str (seconds_to_string u (moving_time_s r)),
      Str (speed_to_pace u (quotient (distance_m r) (moving_time_s r))),
      Str (speed_to_pace u (quotient (distance_m r) (elapsed_time_s r))),
      Num (elevation_m r * FT_PER_M u),
      Num (tss r)]"

text \<open>
  \<^verbatim>\<open>create_week_cal\<close>. The hover date of a row,
  \<^verbatim>\<open>strftime('%a, %b %-d, %Y %-I:%M %p')\<close> of its local timestamp, is formatted by pandas
  and passed in as \<open>hover_date\<close>; no other part of the figure depends on it.
\<close>

definition create_week_cal :: "util \<Rightarrow> (row \<Rightarrow> string) \<Rightarrow> dataframe \<Rightarrow> figure" where
  "create_week_cal u hover_date df_week =
     \<lparr> trace_x = map (\<lambda>r. weekday (recorded_date r)) df_week,
       trace_text =
         map (\<lambda>r. ''<a href=\"/dash-saved-activity/'' @ str_int (id_col r) @ ''\">''
                    @ format_f 1 (distance_m r / M_PER_MI u) @ ''</a>'') df_week,
       marker_size = map distance_m df_week,
       marker_sizeref = (1609.34 * 26.2) / (0.5 * 100 ^ 2),
       customdata = map (\<lambda>r. customdata_row u (hover_date r) r) df_week,
       rest_annotations =
         filter (\<lambda>x. x \<notin> set (map (\<lambda>r. weekday (recorded_date r)) df_week)) [0, 1, 2, 3, 4, 5, 6],
       transition_duration = None \<rparr>"

section \<open>Weekly calendar: three more weeks per click\<close>

record cal_row =
  row_index :: nat
  week_summary :: week_sum
  week_cal :: figure

text \<open>
  Lines 158 to 163 of the first \<^verbatim>\<open>update_calendar\<close>: for loop index \<open>i\<close> the pair
  \<open>(mon_latest, mon_last)\<close>; \<open>idx\<close> is today's weekday.
\<close>

definition week_bounds :: "date \<Rightarrow> nat \<Rightarrow> error + (date \<times> date)" where
  "week_bounds today i =
     (let idx = weekday today;
          ix = idx + 7 * (int i - 1)
      in case date_sub today ix of
           Inl e \<Rightarrow> Inl e
         | Inr mon_latest \<Rightarrow>
             (case date_sub today (ix + 7) of
                Inl e \<Rightarrow> Inl e
              | Inr mon_last \<Rightarrow> Inr (mon_latest, mon_last)))"

text \<open>Lines 165 to 168: the rows of the frame that fall into the week.\<close>

definition df_week_of :: "dataframe \<Rightarrow> date \<Rightarrow> date \<Rightarrow> dataframe" where
  "df_week_of df mon_latest mon_last =
     filter (\<lambda>r. recorded_date r < mon_latest \<and> mon_last \<le> recorded_date r) df"

definition week_row ::
  "util \<Rightarrow> (row \<Rightarrow> string) \<Rightarrow> dataframe \<Rightarrow> date \<Rightarrow> nat \<Rightarrow> error + cal_row" where
  "week_row u hover_date df today i =
     (case week_bounds today i of
        Inl e \<Rightarrow> Inl e
      | Inr (mon_latest, mon_last) \<Rightarrow>
          (let df_week = df_week_of df mon_latest mon_last
           in case create_week_sum u df_week mon_last of
                Inl e \<Rightarrow> Inl e
              | Inr ws \<Rightarrow>
                  Inr \<lparr> row_index = i, week_summary = ws,
                        week_cal = create_week_cal u hover_date df_week \<rparr>))"

primrec append_weeks ::
  "util \<Rightarrow> (row \<Rightarrow> string) \<Rightarrow> dataframe \<Rightarrow> date \<Rightarrow> nat list \<Rightarrow> cal_row list
     \<Rightarrow> error + cal_row list" where
  "append_weeks u hover_date df today [] children = Inr children"
| "append_weeks u hover_date df today (i # is) children =
     (case week_row u hover_date df today i of
        Inl e \<Rightarrow> Inl e
      | Inr c \<Rightarrow> append_weeks u hover_date df today is (children @ [c]))"

text \<open>
  The first callback named \<^verbatim>\<open>update_calendar\<close> (the click on "Add more weeks"). \<open>df\<close> is
  the frame after \<^verbatim>\<open>sort_values\<close> and the conversion to local time, \<open>today\<close> is
  \<^verbatim>\<open>datetime.datetime.today().date()\<close>; \<^verbatim>\<open>n_clicks or 0\<close> and \<^verbatim>\<open>children or []\<close>
  replace a missing value.
\<close>

definition update_calendar ::
  "util \<Rightarrow> (row \<Rightarrow> string) \<Rightarrow> dataframe \<Rightarrow> date \<Rightarrow> nat option \<Rightarrow> cal_row list option
     \<Rightarrow> error + cal_row list" where
  "update_calendar u hover_date df today n_clicks children =
     (let n = (case n_clicks of None \<Rightarrow> 0 | Some k \<Rightarrow> k);
          ch = (case children of None \<Rightarrow> [] | Some c \<Rightarrow> c)
      in append_weeks u hover_date df today [3 * n..<3 * (n + 1)] ch)"

section \<open>Metric remapper\<close>

text \<open>A list comprehension whose body may raise: the first exception ends it.\<close>

primrec map_err :: "('a \<Rightarrow> error + 'b) \<Rightarrow> 'a list \<Rightarrow> error + 'b list" where
  "map_err f [] = Inr []"
| "map_err f (x # xs) =
     (case f x of
        Inl e \<Rightarrow> Inl e
      | Inr y \<Rightarrow> (case map_err f xs of Inl e \<Rightarrow> Inl e | Inr ys \<Rightarrow> Inr (y # ys)))"

text \<open>\<^verbatim>\<open>cdata[k]\<close> raises IndexError past the end of the row.\<close>

definition cell_at :: "nat \<Rightarrow> cell list \<Rightarrow> error + cell" where
  "cell_at k cdata = (if k < length cdata then Inr (cdata ! k) else Inl IndexError)"

text \<open>
  \<^verbatim>\<open>float(c)\<close>: a number is returned as it is; on a string Python parses a float literal
  or raises ValueError. The literal grammar is not modelled: \<open>float_str\<close> is a parameter,
  \<open>None\<close> where Python raises.
\<close>

definition py_float :: "(string \<Rightarrow> real option) \<Rightarrow> cell \<Rightarrow> error + real" where
  "py_float float_str c =
     (case c of
        Num x \<Rightarrow> Inr x
      | Str s \<Rightarrow> (case float_str s of None \<Rightarrow> Inl ValueError | Some x \<Rightarrow> Inr x))"

definition float_cell :: "(string \<Rightarrow> real option) \<Rightarrow> nat \<Rightarrow> cell list \<Rightarrow> error + real" where
  "float_cell float_str k cdata =
     (case cell_at k cdata of Inl e \<Rightarrow> Inl e | Inr c \<Rightarrow> py_float float_str c)"

text \<open>\<^verbatim>\<open>f"{txt.split('>')[0]}>"\<close>: the text up to its first \<open>>\<close>, closed by one.\<close>

definition href :: "string \<Rightarrow> string" where
  "href txt = takeWhile (\<lambda>c. c \<noteq> CHR ''>'') txt @ ''>''"

text \<open>\<^verbatim>\<open>s % 3600\<close>, a positive divisor: the remainder of floor division.\<close>

definition py_mod :: "real \<Rightarrow> real \<Rightarrow> real" where
  "py_mod a b = a - b * of_int \<lfloor>a / b\<rfloor>"

definition time_label :: "string \<times> real \<Rightarrow> string" where
  "time_label = (\<lambda>(a, s).
     a @ str_int \<lfloor>s / 3600\<rfloor> @ ''hr'' @ str_int (py_round (py_mod s 3600 / 60)) @ ''m</a>'')"

definition number_label :: "nat \<Rightarrow> string \<times> real \<Rightarrow> string" where
  "number_label n = (\<lambda>(a, v). a @ format_f n v @ ''</a>'')"

text \<open>
  The assignments shared by the four branches of \<^verbatim>\<open>update_week_cal\<close>: the new labels
  (\<^verbatim>\<open>zip\<close> stops at the shorter list), the new sizes and the new reference size.
\<close>

definition set_bubbles ::
  "figure \<Rightarrow> (string \<times> real \<Rightarrow> string) \<Rightarrow> string list \<Rightarrow> real list \<Rightarrow> real \<Rightarrow> figure" where
  "set_bubbles fig label hrefs values sizeref =
     fig\<lparr> trace_text := map label (zip hrefs values),
          marker_size := values,
          marker_sizeref := sizeref \<rparr>"

definition update_layout :: "figure \<Rightarrow> figure" where
  "update_layout fig = fig\<lparr> transition_duration := Some 1000 \<rparr>"

definition update_week_cal ::
  "util \<Rightarrow> (string \<Rightarrow> real option) \<Rightarrow> figure \<Rightarrow> string \<Rightarrow> error + figure" where
  "update_week_cal u float_str fig bubble_type =
     (let hrefs = map href (trace_text fig)
      in if bubble_type = ''Time'' then
           (case map_err (cell_at 5) (customdata fig) of
              Inl e \<Rightarrow> Inl e
            | Inr time_strs \<Rightarrow>
                (case map_err (string_to_seconds u) time_strs of
                   Inl e \<Rightarrow> Inl e
                 | Inr secs \<Rightarrow>
                     Inr (update_layout
                            (set_bubbles fig time_label hrefs secs
                               (3.5 * 3600 / (0.5 * 100 ^ 2))))))
         else if bubble_type = ''Distance'' then
           (case map_err (float_cell float_str 4) (customdata fig) of
              Inl e \<Rightarrow> Inl e
            | Inr dists_mi \<Rightarrow>
                Inr (update_layout
                       (set_bubbles fig (number_label 1) hrefs dists_mi
                          (26.2 / (0.5 * 100 ^ 2)))))
         else if bubble_type = ''Elevation'' then
           (case map_err (float_cell float_str 8) (customdata fig) of
              Inl e \<Rightarrow> Inl e
            | Inr elevs_ft \<Rightarrow>
                Inr (update_layout
                       (set_bubbles fig (number_label 0) hrefs elevs_ft
                          (7000 / (0.5 * 100 ^ 2)))))
         else if bubble_type = ''TSS'' then
           (case map_err (float_cell float_str 9) (customdata fig) of
              Inl e \<Rightarrow> Inl e
            | Inr tsss \<Rightarrow>
                Inr (update_layout
                       (set_bubbles fig (number_label 1) hrefs tsss
                          (250 / (0.5 * 100 ^ 2)))))
         else Inr (update_layout fig))"

text \<open>
  The second callback named \<^verbatim>\<open>update_calendar\<close> (a change of the metric selector): every
  week figure on the page is remapped.
\<close>

definition update_calendar_bubbles ::
  "util \<Rightarrow> (string \<Rightarrow> real option) \<Rightarrow> string \<Rightarrow> figure list \<Rightarrow> error + figure list" where
  "update_calendar_bubbles u float_str bubble_type figures =
     map_err (\<lambda>figure. update_week_cal u float_str figure bubble_type) figures"

section \<open>The remapper's branches as a table\<close>

text \<open>
  A remap applied to the outcome of an earlier one, as when the selector changes twice:
  an exception of the first call is the outcome.
\<close>

definition then_update ::
  "util \<Rightarrow> (string \<Rightarrow> real option) \<Rightarrow> error + figure \<Rightarrow> string \<Rightarrow> error + figure" where
  "then_update u float_str r bubble_type =
     (case r of Inl e \<Rightarrow> Inl e | Inr fig \<Rightarrow> update_week_cal u float_str fig bubble_type)"

text \<open>
  The four recognised selector values, and what the branch of each reads, writes as a
  label and sets as the reference size; \<open>update_week_cal_metric\<close> below shows that
  \<^verbatim>\<open>update_week_cal\<close> is this table.
\<close>

definition metrics :: "string list" where
  "metrics = [''Distance'', ''Time'', ''Elevation'', ''TSS'']"

definition metric_values ::
  "util \<Rightarrow> (string \<Rightarrow> real option) \<Rightarrow> string \<Rightarrow> cell list list \<Rightarrow> error + real list" where
  "metric_values u float_str bubble_type cd =
     (if bubble_type = ''Time'' then
        (case map_err (cell_at 5) cd of
           Inl e \<Rightarrow> Inl e
         | Inr time_strs \<Rightarrow> map_err (string_to_seconds u) time_strs)
      else if bubble_type = ''Distance'' then map_err (float_cell float_str 4) cd
      else if bubble_type = ''Elevation'' then map_err (float_cell float_str 8) cd
      else map_err (float_cell float_str 9) cd)"

definition metric_label :: "string \<Rightarrow> string \<times> real \<Rightarrow> string" where
  "metric_label bubble_type =
     (if bubble_type = ''Time'' then time_label
      else if bubble_type = ''Elevation'' then number_label 0
      else number_label 1)"

definition metric_sizeref :: "string \<Rightarrow> real" where
  "metric_sizeref bubble_type =
     (if bubble_type = ''Time'' then 3.5 * 3600 / (0.5 * 100 ^ 2)
      else if bubble_type = ''Distance'' then 26.2 / (0.5 * 100 ^ 2)
      else if bubble_type = ''Elevation'' then 7000 / (0.5 * 100 ^ 2)
      else 250 / (0.5 * 100 ^ 2))"

text \<open>
  What a later remap reads from a figure: the cells, and the anchors that are paired with
  as many values as there are rows of cells.
\<close>

definition same_source :: "figure \<Rightarrow> figure \<Rightarrow> bool" where
  "same_source g f \<longleftrightarrow>
     customdata g = customdata f \<and> trace_x g = trace_x f \<and>
     rest_annotations g = rest_annotations f \<and>
     take (length (customdata f)) (map href (trace_text g))
       = take (length (customdata f)) (map href (trace_text f))"

text \<open>The opening tag that \<^verbatim>\<open>create_week_cal\<close> puts in front of each label.\<close>

definition anchor :: "row \<Rightarrow> string" where
  "anchor r = ''<a href=\"/dash-saved-activity/'' @ str_int (id_col r) @ ''\">''"

section \<open>Sample inputs\<close>

text \<open>A frame row carrying only what the calculator reads: a timestamp and a stress score.\<close>

definition sample_row :: "real \<Rightarrow> real \<Rightarrow> row" where
  "sample_row t s =
     \<lparr> id_col = 0, recorded = t, recorded_date = 0, tss = s, title = [], description = [],
       elapsed_time_s = 0, moving_time_s = 0, distance_m = 0, elevation_m = 0 \<rparr>"

text \<open>A frame row recorded on a given local date.\<close>

definition on_date :: "date \<Rightarrow> row" where
  "on_date d = (sample_row 0 0)\<lparr> recorded_date := d \<rparr>"

text \<open>A decimal numeral read back as a number; \<open>None\<close> on any other character.\<close>

definition digit_value :: "char \<Rightarrow> nat option" where
  "digit_value c =
     (if c \<in> set ''0123456789''
      then Some (length (takeWhile (\<lambda>d. d \<noteq> c) ''0123456789'')) else None)"

fun parse_nat :: "nat \<Rightarrow> string \<Rightarrow> nat option" where
  "parse_nat acc [] = Some acc"
| "parse_nat acc (c # cs) =
     (case digit_value c of None \<Rightarrow> None | Some d \<Rightarrow> parse_nat (10 * acc + d) cs)"

text \<open>The summary of a week without distance, climb or moving time.\<close>

definition empty_week_sum :: "string \<Rightarrow> week_sum" where
  "empty_week_sum label =
     \<lparr> date_str = label, time_str = ''--:--'', elevation_str = ''0 ft'',
       distance_str = ''0.0 mi'' \<rparr>"

text \<open>
  Modelled from the spec: the module \<^verbatim>\<open>application.util\<close> is not among the sources. The
  spec names its outputs "distance-in-miles", "moving-time-in-seconds-as-string" and
  "elevation-in-feet": the instance below takes the metres per mile that
  \<^verbatim>\<open>create_week_cal\<close> itself uses in its reference size (1609.34), the usual 3.28084 feet
  per metre, and the decimal numeral of the whole seconds as the time string. The spec
  does not describe the pace format; the pace cells only feed the hover text and are left
  empty. The instance is used for the sample figures only; every general theorem holds
  for an arbitrary \<open>util\<close>.
\<close>

definition spec_util :: util where
  "spec_util =
     \<lparr> M_PER_MI = 1609.34,
       FT_PER_M = 3.28084,
       seconds_to_string = (\<lambda>s. str_int \<lfloor>s\<rfloor>),
       string_to_seconds = (\<lambda>c. case c of
           Num x \<Rightarrow> Inl ValueError
         | Str s \<Rightarrow> (if s = [] then Inl ValueError
                     else case parse_nat 0 s of None \<Rightarrow> Inl ValueError
                          | Some n \<Rightarrow> Inr (real n))),
       speed_to_pace = (\<lambda>q. []) \<rparr>"

text \<open>
  The numeric cells of the sample figures are numbers, so \<^verbatim>\<open>float()\<close> is never applied to
  a string there.
\<close>

definition no_float_literals :: "string \<Rightarrow> real option" where
  "no_float_literals s = None"

definition sample_hover_date :: "row \<Rightarrow> string" where
  "sample_hover_date r = ''Wed, Jan 3, 2024 7:00 AM''"

definition sample_activity :: row where
  "sample_activity =
     \<lparr> id_col = 7, recorded = 0, recorded_date = 738888, tss = 50, title = ''Run'',
       description = ''Easy'', elapsed_time_s = 4000, moving_time_s = 3661,
       distance_m = 8046.7, elevation_m = 100 \<rparr>"

definition sample_fig :: figure where
  "sample_fig = create_week_cal spec_util sample_hover_date [sample_activity]"

text \<open>The sample figure after a remap to each of three metrics.\<close>

definition sample_fig_distance :: figure where
  "sample_fig_distance =
     sample_fig\<lparr> marker_size := [5], marker_sizeref := 26.2 / (0.5 * 100 ^ 2),
                 transition_duration := Some 1000 \<rparr>"

definition sample_fig_time :: figure where
  "sample_fig_time =
     sample_fig\<lparr> trace_text := [''<a href=\"/dash-saved-activity/7\">1hr1m</a>''],
                 marker_size := [3661], marker_sizeref := 3.5 * 3600 / (0.5 * 100 ^ 2),
                 transition_duration := Some 1000 \<rparr>"

definition sample_fig_elevation :: figure where
  "sample_fig_elevation =
     sample_fig\<lparr> trace_text := [''<a href=\"/dash-saved-activity/7\">328</a>''],
                 marker_size := [328.084], marker_sizeref := 7000 / (0.5 * 100 ^ 2),
                 transition_duration := Some 1000 \<rparr>"


section \<open>Properties of the training-load calculator\<close>

lemma calc_upto_1: "calc_upto df (Suc 0) = calc_init (df ! 0)"
  by (simp add: calc_upto_def)

lemma calc_upto_Suc:
  "1 \<le> k \<Longrightarrow> calc_upto df (Suc k) = calc_step df k (calc_upto df k)"
  by (simp add: calc_upto_def)

lemma calc_upto_length:
  "1 \<le> k \<Longrightarrow>
     length (atl_pre (calc_upto df k)) = k \<and> length (atl_post (calc_upto df k)) = k \<and>
     length (ctl_pre (calc_upto df k)) = k \<and> length (ctl_post (calc_upto df k)) = k"
proof (induction k rule: nat_induct_at_least)
  case base
  show ?case by (simp add: calc_upto_def calc_init_def)
next
  case (Suc n)
  then show ?case by (simp add: calc_upto_Suc calc_step_def)
qed

lemma calc_upto_prefix:
  assumes "1 \<le> k" "i < k" "k \<le> m"
  shows "atl_pre (calc_upto df m) ! i = atl_pre (calc_upto df k) ! i \<and>
         atl_post (calc_upto df m) ! i = atl_post (calc_upto df k) ! i \<and>
         ctl_pre (calc_upto df m) ! i = ctl_pre (calc_upto df k) ! i \<and>
         ctl_post (calc_upto df m) ! i = ctl_post (calc_upto df k) ! i"
  using assms(3)
proof (induction m rule: nat_induct_at_least)
  case base
  show ?case by simp
next
  case (Suc n)
  have n1: "1 \<le> n" using assms(1) Suc.hyps by simp
  have len: "i < n" using assms(2) Suc.hyps by simp
  show ?case
    using Suc.IH calc_upto_length [OF n1, of df] len
    by (simp add: calc_upto_Suc [OF n1] calc_step_def nth_append)
qed

lemma calc_ctl_atl_eq:
  "df \<noteq> [] \<Longrightarrow> calc_ctl_atl df = Inr (calc_upto df (length df))"
  by (cases df) (simp_all add: calc_ctl_atl_def calc_upto_def)

lemma calc_upto_head:
  assumes "1 \<le> m"
  shows "atl_pre (calc_upto df m) ! 0 = 0 \<and> atl_post (calc_upto df m) ! 0 = tss (df ! 0) / 7 \<and>
         ctl_pre (calc_upto df m) ! 0 = 0 \<and> ctl_post (calc_upto df m) ! 0 = tss (df ! 0) / 42"
  using calc_upto_prefix [of 1 0 m df] assms
  by (simp add: calc_upto_1 calc_init_def)

lemma calc_upto_at:
  assumes "1 \<le> i" "i < m"
  shows "atl_pre (calc_upto df m) ! i =
           (atl_pre (calc_upto df m) ! (i - 1) + tss (df ! (i - 1)) / 7)
             * (6 / 7) powr delta_t_days df i"
    and "atl_post (calc_upto df m) ! i =
           tss (df ! i) / 7 + atl_post (calc_upto df m) ! (i - 1) * (6 / 7) powr delta_t_days df i"
    and "ctl_pre (calc_upto df m) ! i =
           (ctl_pre (calc_upto df m) ! (i - 1) + tss (df ! (i - 1)) / 42)
             * (41 / 42) powr delta_t_days df i"
    and "ctl_post (calc_upto df m) ! i =
           tss (df ! i) / 42 + ctl_post (calc_upto df m) ! (i - 1) * (41 / 42) powr delta_t_days df i"
proof -
  have a: "1 \<le> Suc i" "i < Suc i" "Suc i \<le> m" using assms by simp_all
  have b: "1 \<le> i" "i - 1 < i" "i \<le> m" using assms by simp_all
  note top = calc_upto_prefix [OF a, of df]
  note prev = calc_upto_prefix [OF b, of df]
  note len = calc_upto_length [OF assms(1), of df]
  have step: "calc_upto df (Suc i) = calc_step df i (calc_upto df i)"
    by (rule calc_upto_Suc [OF assms(1)])
  show "atl_pre (calc_upto df m) ! i =
           (atl_pre (calc_upto df m) ! (i - 1) + tss (df ! (i - 1)) / 7)
             * (6 / 7) powr delta_t_days df i"
    using top prev len by (simp add: step calc_step_def nth_append)
  show "atl_post (calc_upto df m) ! i =
           tss (df ! i) / 7 + atl_post (calc_upto df m) ! (i - 1) * (6 / 7) powr delta_t_days df i"
    using top prev len by (simp add: step calc_step_def nth_append)
  show "ctl_pre (calc_upto df m) ! i =
           (ctl_pre (calc_upto df m) ! (i - 1) + tss (df ! (i - 1)) / 42)
             * (41 / 42) powr delta_t_days df i"
    using top prev len by (simp add: step calc_step_def nth_append)
  show "ctl_post (calc_upto df m) ! i =
           tss (df ! i) / 42 + ctl_post (calc_upto df m) ! (i - 1) * (41 / 42) powr delta_t_days df i"
    using top prev len by (simp add: step calc_step_def nth_append)
qed

lemma calc_upto_post_pre:
  assumes "i < m"
  shows "atl_post (calc_upto df m) ! i = atl_pre (calc_upto df m) ! i + tss (df ! i) / 7 \<and>
         ctl_post (calc_upto df m) ! i = ctl_pre (calc_upto df m) ! i + tss (df ! i) / 42"
  using assms
proof (induction i)
  case 0
  then show ?case using calc_upto_head [of m df] by simp
next
  case (Suc i)
  have r: "1 \<le> Suc i" "Suc i < m" using Suc.prems by simp_all
  have ih: "atl_post (calc_upto df m) ! i = atl_pre (calc_upto df m) ! i + tss (df ! i) / 7"
           "ctl_post (calc_upto df m) ! i = ctl_pre (calc_upto df m) ! i + tss (df ! i) / 42"
    using Suc by simp_all
  show ?case
    using calc_upto_at [OF r, of df] ih by simp
qed

lemma calc_upto_nonneg:
  assumes "i < m" "m \<le> length df" "\<forall>r \<in> set df. 0 \<le> tss r"
  shows "0 \<le> atl_post (calc_upto df m) ! i \<and> 0 \<le> ctl_post (calc_upto df m) ! i"
  using assms(1)
proof (induction i)
  case 0
  have "0 < length df" using 0 assms(2) by linarith
  then have "df ! 0 \<in> set df" by (rule nth_mem)
  then have "0 \<le> tss (df ! 0)" using assms(3) by blast
  then show ?case using calc_upto_head [of m df] 0 by simp
next
  case (Suc i)
  have r: "1 \<le> Suc i" "Suc i < m" using Suc.prems by simp_all
  have "Suc i < length df" using Suc.prems assms(2) by linarith
  then have "df ! Suc i \<in> set df" by (rule nth_mem)
  then have t: "0 \<le> tss (df ! Suc i)" using assms(3) by blast
  have ih: "0 \<le> atl_post (calc_upto df m) ! i" "0 \<le> ctl_post (calc_upto df m) ! i"
    using Suc by simp_all
  have "0 \<le> atl_post (calc_upto df m) ! i * (6 / 7) powr delta_t_days df (Suc i)"
    using ih(1) by simp
  moreover have "0 \<le> ctl_post (calc_upto df m) ! i * (41 / 42) powr delta_t_days df (Suc i)"
    using ih(2) by simp
  ultimately show ?case
    using calc_upto_at(2,4) [OF r, of df] t by simp
qed

text \<open>
  C1. On a non-empty frame sorted by timestamp, \<^verbatim>\<open>calc_ctl_atl\<close> returns four columns as
  long as the frame with \<open>ATL_pre[0] = CTL_pre[0] = 0\<close>, \<open>ATL_post[0] = tss\<^sub>0 / 7\<close>,
  \<open>CTL_post[0] = tss\<^sub>0 / 42\<close> and, for every \<open>i \<ge> 1\<close> with the gap \<open>\<Delta>\<^sub>i\<close> in fractional days,
  \<open>ATL_pre[i] = (ATL_pre[i-1] + tss\<^sub>i\<^sub>-\<^sub>1 / 7) * (6/7)^\<Delta>\<^sub>i\<close> and
  \<open>ATL_post[i] = tss\<^sub>i / 7 + ATL_post[i-1] * (6/7)^\<Delta>\<^sub>i\<close>; the slow series has the same shape
  with divisor 42 and base 41/42.
\<close>

theorem calc_ctl_atl_recurrence:
  assumes "df \<noteq> []" "sorted (map recorded df)"
  shows "\<exists>r. calc_ctl_atl df = Inr r \<and>
           length (atl_pre r) = length df \<and> length (atl_post r) = length df \<and>
           length (ctl_pre r) = length df \<and> length (ctl_post r) = length df \<and>
           atl_pre r ! 0 = 0 \<and> atl_post r ! 0 = tss (df ! 0) / 7 \<and>
           ctl_pre r ! 0 = 0 \<and> ctl_post r ! 0 = tss (df ! 0) / 42 \<and>
           (\<forall>i. 1 \<le> i \<and> i < length df \<longrightarrow>
              atl_pre r ! i =
                (atl_pre r ! (i - 1) + tss (df ! (i - 1)) / 7)
                  * (6 / 7) powr ((recorded (df ! i) - recorded (df ! (i - 1))) / 86400) \<and>
              atl_post r ! i =
                tss (df ! i) / 7
                  + atl_post r ! (i - 1)
                    * (6 / 7) powr ((recorded (df ! i) - recorded (df ! (i - 1))) / 86400) \<and>
              ctl_pre r ! i =
                (ctl_pre r ! (i - 1) + tss (df ! (i - 1)) / 42)
                  * (41 / 42) powr ((recorded (df ! i) - recorded (df ! (i - 1))) / 86400) \<and>
              ctl_post r ! i =
                tss (df ! i) / 42
                  + ctl_post r ! (i - 1)
                    * (41 / 42) powr ((recorded (df ! i) - recorded (df ! (i - 1))) / 86400))"
proof -
  have m: "1 \<le> length df" using assms(1) by (cases df) simp_all
  have d: "delta_t_days df i = (recorded (df ! i) - recorded (df ! (i - 1))) / 86400" for i
    by (simp add: delta_t_days_def)
  show ?thesis
    using calc_upto_length [OF m, of df] calc_upto_head [OF m, of df]
      calc_upto_at [of _ "length df" df]
    by (simp add: calc_ctl_atl_eq [OF assms(1)] d)
qed

theorem calc_ctl_atl_recurrence_witness:
  "[sample_row 0 70, sample_row 86400 140] \<noteq> [] \<and>
   sorted (map recorded [sample_row 0 70, sample_row 86400 140]) \<and>
   (\<exists>r. calc_ctl_atl [sample_row 0 70, sample_row 86400 140] = Inr r \<and>
      atl_pre r ! 0 = 0 \<and> atl_post r ! 0 = 10 \<and>
      atl_pre r ! 1 = 60 / 7 \<and> atl_post r ! 1 = 20 + 60 / 7 \<and>
      ctl_pre r ! 0 = 0 \<and> ctl_post r ! 0 = 5 / 3)"
  using calc_ctl_atl_recurrence [of "[sample_row 0 70, sample_row 86400 140]"]
  by (auto simp add: sample_row_def)

text \<open>
  C8. With every stress score non-negative, the values after each activity,
  \<open>ATL_post[i]\<close> and \<open>CTL_post[i]\<close>, are non-negative at every index of a non-empty sorted
  frame.
\<close>

theorem calc_ctl_atl_post_nonneg:
  assumes "df \<noteq> []" "sorted (map recorded df)" "\<forall>r \<in> set df. 0 \<le> tss r"
  shows "\<exists>r. calc_ctl_atl df = Inr r \<and>
           (\<forall>i < length df. 0 \<le> atl_post r ! i \<and> 0 \<le> ctl_post r ! i)"
  using calc_upto_nonneg [of _ "length df" df] assms(3)
  by (simp add: calc_ctl_atl_eq [OF assms(1)])

theorem calc_ctl_atl_post_nonneg_witness:
  "[sample_row 0 70, sample_row 86400 0] \<noteq> [] \<and>
   sorted (map recorded [sample_row 0 70, sample_row 86400 0]) \<and>
   0 \<le> tss (sample_row 0 70) \<and> 0 \<le> tss (sample_row 86400 0) \<and>
   (\<exists>r. calc_ctl_atl [sample_row 0 70, sample_row 86400 0] = Inr r \<and>
      0 \<le> atl_post r ! 0 \<and> 0 \<le> ctl_post r ! 0 \<and> 0 \<le> atl_post r ! 1 \<and> 0 \<le> ctl_post r ! 1)"
  using calc_ctl_atl_post_nonneg [of "[sample_row 0 70, sample_row 86400 0]"]
  by (auto simp add: sample_row_def)

text \<open>
  C10. At every index of a non-empty sorted frame the value after the activity is the
  value before it plus the activity's own contribution:
  \<open>ATL_post[i] = ATL_pre[i] + tss\<^sub>i / 7\<close> and \<open>CTL_post[i] = CTL_pre[i] + tss\<^sub>i / 42\<close>,
  although the loop computes the two by separate recurrences.
\<close>

theorem calc_ctl_atl_post_is_pre_plus_own:
  assumes "df \<noteq> []" "sorted (map recorded df)"
  shows "\<exists>r. calc_ctl_atl df = Inr r \<and>
           (\<forall>i < length df.
              atl_post r ! i = atl_pre r ! i + tss (df ! i) / 7 \<and>
              ctl_post r ! i = ctl_pre r ! i + tss (df ! i) / 42)"
  using calc_upto_post_pre [of _ "length df" df]
  by (simp add: calc_ctl_atl_eq [OF assms(1)])

theorem calc_ctl_atl_post_is_pre_plus_own_witness:
  "[sample_row 0 70, sample_row 43200 140] \<noteq> [] \<and>
   sorted (map recorded [sample_row 0 70, sample_row 43200 140]) \<and>
   (\<exists>r. calc_ctl_atl [sample_row 0 70, sample_row 43200 140] = Inr r \<and>
      atl_post r ! 1 = atl_pre r ! 1 + 20 \<and> ctl_post r ! 1 = ctl_pre r ! 1 + 10 / 3)"
  using calc_ctl_atl_post_is_pre_plus_own [of "[sample_row 0 70, sample_row 43200 140]"]
  by (auto simp add: sample_row_def)

section \<open>Properties of the weekly calendar\<close>

lemma week_bounds_Inr:
  assumes "week_bounds today i = Inr (h, l)"
  shows "h = today - weekday today - 7 * (int i - 1)" and "l = h - 7" and "1 \<le> l" and "h \<le> max_ordinal"
    and "l = today - weekday today - 7 * int i"
  using assms
  by (auto simp add: week_bounds_def date_sub_def timedelta_def date_of_ordinal_def Let_def
      split: if_splits sum.splits)

lemma weekday_range: "0 \<le> weekday d \<and> weekday d < 7"
  by (simp add: weekday_def)

lemma weekday_monday: "weekday (today - weekday today - 7 * k) = 0"
  unfolding weekday_def by presburger

lemma week_bounds_total:
  assumes "7 * (int i + 1) \<le> today" "today \<le> max_ordinal - 7"
  shows "week_bounds today i =
           Inr (today - weekday today - 7 * (int i - 1), today - weekday today - 7 * int i)"
proof -
  have a: "\<bar>weekday today + 7 * (int i - 1)\<bar> \<le> 999999999"
    using assms weekday_range [of today] by (simp add: max_ordinal_def abs_le_iff)
  have b: "\<bar>weekday today + 7 * (int i - 1) + 7\<bar> \<le> 999999999"
    using assms weekday_range [of today] by (simp add: max_ordinal_def abs_le_iff)
  have c: "1 \<le> today - (weekday today + 7 * (int i - 1) + 7)"
          "today - (weekday today + 7 * (int i - 1)) \<le> max_ordinal"
    using assms weekday_range [of today] by simp_all
  have d: "1 \<le> today - (weekday today + 7 * (int i - 1))"
          "today - (weekday today + 7 * (int i - 1) + 7) \<le> max_ordinal"
    using c by simp_all
  have e: "today - (weekday today + 7 * (int i - 1)) = today - weekday today - 7 * (int i - 1)"
          "today - (weekday today + 7 * (int i - 1) + 7) = today - weekday today - 7 * int i"
    by simp_all
  show ?thesis
    unfolding week_bounds_def date_sub_def timedelta_def date_of_ordinal_def Let_def
    using a b c d e by simp
qed

lemma set_df_week_of:
  "r \<in> set (df_week_of df h l) \<longleftrightarrow> r \<in> set df \<and> l \<le> recorded_date r \<and> recorded_date r < h"
  by (auto simp add: df_week_of_def)

lemma week_bounds_first_holds_today:
  assumes "7 \<le> today" "today \<le> max_ordinal - 7"
  shows "\<exists>h l. week_bounds today 0 = Inr (h, l) \<and> l \<le> today \<and> today < h"
proof -
  have "7 * (int 0 + 1) \<le> today" using assms(1) by simp
  then have "week_bounds today 0 =
      Inr (today - weekday today - 7 * (int 0 - 1), today - weekday today - 7 * int 0)"
    using assms(2) by (rule week_bounds_total)
  then show ?thesis using weekday_range [of today] by simp
qed

lemma week_bounds_next_window:
  assumes "week_bounds today i = Inr (h, l)" "week_bounds today (i + 3) = Inr (h', l')"
  shows "h' = h - 21 \<and> l' = l - 21"
  using week_bounds_Inr(1,5) [OF assms(1)] week_bounds_Inr(1,5) [OF assms(2)] by simp

text \<open>
  The ranges of three consecutive loop indices: seven days each from a Monday, abutting,
  with disjoint frames that cover the 21-day span.
\<close>

lemma week_buckets_partition:
  assumes "week_bounds today (3 * n) = Inr (h0, l0)"
      and "week_bounds today (3 * n + 1) = Inr (h1, l1)"
      and "week_bounds today (3 * n + 2) = Inr (h2, l2)"
  shows "h0 = l0 + 7 \<and> h1 = l1 + 7 \<and> h2 = l2 + 7 \<and>
         weekday l0 = 0 \<and> weekday l1 = 0 \<and> weekday l2 = 0 \<and>
         h1 = l0 \<and> h2 = l1 \<and>
         (\<forall>r. (r \<in> set (df_week_of df h0 l0) \<longleftrightarrow>
                 r \<in> set df \<and> l0 \<le> recorded_date r \<and> recorded_date r < h0) \<and>
              (r \<in> set (df_week_of df h1 l1) \<longleftrightarrow>
                 r \<in> set df \<and> l1 \<le> recorded_date r \<and> recorded_date r < h1) \<and>
              (r \<in> set (df_week_of df h2 l2) \<longleftrightarrow>
                 r \<in> set df \<and> l2 \<le> recorded_date r \<and> recorded_date r < h2)) \<and>
         set (df_week_of df h0 l0) \<inter> set (df_week_of df h1 l1) = {} \<and>
         set (df_week_of df h0 l0) \<inter> set (df_week_of df h2 l2) = {} \<and>
         set (df_week_of df h1 l1) \<inter> set (df_week_of df h2 l2) = {} \<and>
         (\<forall>r \<in> set df. l2 \<le> recorded_date r \<and> recorded_date r < h0 \<longrightarrow>
            (r \<in> set (df_week_of df h0 l0) \<and> r \<notin> set (df_week_of df h1 l1)
               \<and> r \<notin> set (df_week_of df h2 l2)) \<or>
            (r \<notin> set (df_week_of df h0 l0) \<and> r \<in> set (df_week_of df h1 l1)
               \<and> r \<notin> set (df_week_of df h2 l2)) \<or>
            (r \<notin> set (df_week_of df h0 l0) \<and> r \<notin> set (df_week_of df h1 l1)
               \<and> r \<in> set (df_week_of df h2 l2)))"
proof -
  note b0 = week_bounds_Inr [OF assms(1)]
  note b1 = week_bounds_Inr [OF assms(2)]
  note b2 = week_bounds_Inr [OF assms(3)]
  have w: "h0 = l0 + 7" "h1 = l1 + 7" "h2 = l2 + 7" using b0(2) b1(2) b2(2) by simp_all
  have ab: "h1 = l0" "h2 = l1" using b0(1,2) b1(1,2) b2(1) by simp_all
  have m0: "weekday l0 = 0"
    unfolding b0(5) by (rule weekday_monday)
  have m1: "weekday l1 = 0"
    unfolding b1(5) by (rule weekday_monday)
  have m2: "weekday l2 = 0"
    unfolding b2(5) by (rule weekday_monday)
  show ?thesis
    using w ab m0 m1 m2 by (auto simp add: set_df_week_of)
qed


lemma upt_three: "[3 * n..<3 * (n + 1)] = [3 * n, 3 * n + 1, 3 * n + 2]"
proof -
  have "[3 * n..<3 * n + 3] = [3 * n, 3 * n + 1, 3 * n + 2]"
    by (simp add: upt_rec [of "3 * n"] upt_rec [of "Suc (3 * n)"] upt_rec [of "Suc (Suc (3 * n))"])
  then show ?thesis by (simp add: algebra_simps)
qed

lemma week_row_Inr:
  assumes "week_row u hover df today i = Inr c"
  shows "\<exists>h l. week_bounds today i = Inr (h, l) \<and> row_index c = i \<and>
           week_cal c = create_week_cal u hover (df_week_of df h l) \<and>
           create_week_sum u (df_week_of df h l) l = Inr (week_summary c)"
  using assms
  by (auto simp add: week_row_def Let_def split: sum.splits prod.splits)

lemma append_weeks_three:
  assumes "append_weeks u hover df today [i, j, k] ch = Inr cs"
  shows "\<exists>c0 c1 c2. cs = ch @ [c0, c1, c2] \<and> week_row u hover df today i = Inr c0 \<and>
           week_row u hover df today j = Inr c1 \<and> week_row u hover df today k = Inr c2"
  using assms by (auto split: sum.splits)

lemma create_week_cal_customdata:
  "customdata (create_week_cal u hover df_week) = map (\<lambda>r. customdata_row u (hover r) r) df_week"
  by (simp add: create_week_cal_def)

lemma sample_week_labels:
  "week_date_str 738865 = Inr ''Dec 11-17''"
  "week_date_str 738858 = Inr ''Dec 4-10''"
  "week_date_str 738851 = Inr ''Nov 27-Dec 3''"
  by (simp_all add: week_date_str_def date_add_def timedelta_def date_of_ordinal_def
      max_ordinal_def strftime_b_d_def strftime_d_def date_month_def date_day_def
      ord2ymd_def DAYS_BEFORE_MONTH_def DAYS_IN_MONTH_def month_abbr_def str_int_def
      str_nat.simps digit_char_def Let_def)

lemma sample_week_sum:
  "week_date_str d = Inr label \<Longrightarrow> (\<forall>r \<in> set df_week. moving_time_s r = 0 \<and> elevation_m r = 0 \<and> distance_m r = 0)
     \<Longrightarrow> create_week_sum spec_util df_week d = Inr (empty_week_sum label)"
proof -
  assume l: "week_date_str d = Inr label"
    and z: "\<forall>r \<in> set df_week. moving_time_s r = 0 \<and> elevation_m r = 0 \<and> distance_m r = 0"
  have s: "sum_list (map moving_time_s df_week) = 0" "sum_list (map elevation_m df_week) = 0"
    "sum_list (map distance_m df_week) = 0"
    using z by (induction df_week) simp_all
  show ?thesis
    by (simp add: create_week_sum_def l s empty_week_sum_def moving_time_str_def format_f_def
        py_round_def str_int_def str_nat.simps digit_char_def spec_util_def Let_def)
qed

lemma sample_calendar:
  "update_calendar spec_util sample_hover_date [on_date 738860, on_date 738888] 738888
     (Some 1) None =
   Inr [\<lparr> row_index = 3, week_summary = empty_week_sum ''Dec 11-17'',
          week_cal = create_week_cal spec_util sample_hover_date [] \<rparr>,
        \<lparr> row_index = 4, week_summary = empty_week_sum ''Dec 4-10'',
          week_cal = create_week_cal spec_util sample_hover_date [on_date 738860] \<rparr>,
        \<lparr> row_index = 5, week_summary = empty_week_sum ''Nov 27-Dec 3'',
          week_cal = create_week_cal spec_util sample_hover_date [] \<rparr>]"
proof -
  have b: "week_bounds 738888 3 = Inr (738872, 738865)"
    "week_bounds 738888 4 = Inr (738865, 738858)"
    "week_bounds 738888 5 = Inr (738858, 738851)"
    by (simp_all add: week_bounds_def weekday_def date_sub_def timedelta_def
        date_of_ordinal_def max_ordinal_def)
  have f: "df_week_of [on_date 738860, on_date 738888] 738872 738865 = []"
    "df_week_of [on_date 738860, on_date 738888] 738865 738858 = [on_date 738860]"
    "df_week_of [on_date 738860, on_date 738888] 738858 738851 = []"
    by (simp_all add: df_week_of_def on_date_def sample_row_def)
  have s: "create_week_sum spec_util [] 738865 = Inr (empty_week_sum ''Dec 11-17'')"
    "create_week_sum spec_util [on_date 738860] 738858 = Inr (empty_week_sum ''Dec 4-10'')"
    "create_week_sum spec_util [] 738851 = Inr (empty_week_sum ''Nov 27-Dec 3'')"
    by (rule sample_week_sum, rule sample_week_labels, simp add: on_date_def sample_row_def)+
  have r: "week_row spec_util sample_hover_date [on_date 738860, on_date 738888] 738888 3 =
      Inr \<lparr> row_index = 3, week_summary = empty_week_sum ''Dec 11-17'',
          week_cal = create_week_cal spec_util sample_hover_date [] \<rparr>"
    "week_row spec_util sample_hover_date [on_date 738860, on_date 738888] 738888 4 =
      Inr \<lparr> row_index = 4, week_summary = empty_week_sum ''Dec 4-10'',
          week_cal = create_week_cal spec_util sample_hover_date [on_date 738860] \<rparr>"
    "week_row spec_util sample_hover_date [on_date 738860, on_date 738888] 738888 5 =
      Inr \<lparr> row_index = 5, week_summary = empty_week_sum ''Nov 27-Dec 3'',
          week_cal = create_week_cal spec_util sample_hover_date [] \<rparr>"
    by (simp_all add: week_row_def b f s)
  have u: "[3 * 1..<3 * (1 + 1)] = [3, 4, 5::nat]"
    using upt_three [of 1] by simp
  show ?thesis
    unfolding update_calendar_def Let_def option.case u by (simp add: r)
qed

text \<open>
  A click succeeds whenever the three weeks lie within the years that \<^verbatim>\<open>datetime\<close>
  represents.
\<close>

lemma week_row_total:
  assumes "7 * (int i + 1) \<le> today" "today \<le> max_ordinal - 7"
  shows "\<exists>c. week_row u hover df today i = Inr c"
proof -
  define l where "l = today - weekday today - 7 * int i"
  have b: "week_bounds today i = Inr (l + 7, l)"
    using week_bounds_total [OF assms] by (simp add: l_def)
  have r: "1 \<le> l" "l + 6 \<le> max_ordinal"
    using assms weekday_range [of today] by (simp_all add: l_def)
  then obtain s where "week_date_str l = Inr s"
    by (simp add: week_date_str_def date_add_def timedelta_def date_of_ordinal_def)
  then show ?thesis
    by (simp add: week_row_def b create_week_sum_def Let_def)
qed

lemma update_calendar_total:
  assumes "21 * (int n + 1) \<le> today" "today \<le> max_ordinal - 7"
  shows "\<exists>cs. update_calendar u hover df today (Some n) children = Inr cs"
proof -
  have "7 * (int (3 * n) + 1) \<le> today" "7 * (int (3 * n + 1) + 1) \<le> today"
    "7 * (int (3 * n + 2) + 1) \<le> today"
    using assms(1) by simp_all
  then obtain c0 c1 c2 where
    "week_row u hover df today (3 * n) = Inr c0"
    "week_row u hover df today (3 * n + 1) = Inr c1"
    "week_row u hover df today (3 * n + 2) = Inr c2"
    using week_row_total [OF _ assms(2)] by metis
  then show ?thesis
    unfolding update_calendar_def Let_def option.case upt_three by simp
qed

text \<open>
  C3. A click that succeeds appends exactly three rows, for the loop indices \<open>3n\<close>,
  \<open>3n + 1\<close> and \<open>3n + 2\<close>; the bubbles and the summary of each row are built from the
  rows of the frame dated in that week's half-open range \<open>mon_last \<le> date < mon_latest\<close>,
  which is seven days from a Monday. Consecutive weeks abut exactly, the three frames are
  pairwise disjoint, and every row of the frame dated inside the 21-day span is in exactly
  one of the three.
\<close>

theorem update_calendar_weeks_partition:
  assumes "update_calendar u hover df today n_clicks children = Inr cs"
      and "n = (case n_clicks of None \<Rightarrow> 0 | Some k \<Rightarrow> k)"
      and "ch = (case children of None \<Rightarrow> [] | Some c \<Rightarrow> c)"
  shows "\<exists>c0 c1 c2 h0 l0 h1 l1 h2 l2.
           cs = ch @ [c0, c1, c2] \<and>
           row_index c0 = 3 * n \<and> row_index c1 = 3 * n + 1 \<and> row_index c2 = 3 * n + 2 \<and>
           week_bounds today (3 * n) = Inr (h0, l0) \<and>
           week_bounds today (3 * n + 1) = Inr (h1, l1) \<and>
           week_bounds today (3 * n + 2) = Inr (h2, l2) \<and>
           week_cal c0 = create_week_cal u hover (df_week_of df h0 l0) \<and>
           week_cal c1 = create_week_cal u hover (df_week_of df h1 l1) \<and>
           week_cal c2 = create_week_cal u hover (df_week_of df h2 l2) \<and>
           customdata (week_cal c0) = map (\<lambda>r. customdata_row u (hover r) r) (df_week_of df h0 l0) \<and>
           customdata (week_cal c1) = map (\<lambda>r. customdata_row u (hover r) r) (df_week_of df h1 l1) \<and>
           customdata (week_cal c2) = map (\<lambda>r. customdata_row u (hover r) r) (df_week_of df h2 l2) \<and>
           create_week_sum u (df_week_of df h0 l0) l0 = Inr (week_summary c0) \<and>
           create_week_sum u (df_week_of df h1 l1) l1 = Inr (week_summary c1) \<and>
           create_week_sum u (df_week_of df h2 l2) l2 = Inr (week_summary c2) \<and>
           h0 = l0 + 7 \<and> h1 = l1 + 7 \<and> h2 = l2 + 7 \<and>
           weekday l0 = 0 \<and> weekday l1 = 0 \<and> weekday l2 = 0 \<and>
           h1 = l0 \<and> h2 = l1 \<and>
           (\<forall>r. (r \<in> set (df_week_of df h0 l0) \<longleftrightarrow>
                   r \<in> set df \<and> l0 \<le> recorded_date r \<and> recorded_date r < h0) \<and>
                (r \<in> set (df_week_of df h1 l1) \<longleftrightarrow>
                   r \<in> set df \<and> l1 \<le> recorded_date r \<and> recorded_date r < h1) \<and>
                (r \<in> set (df_week_of df h2 l2) \<longleftrightarrow>
                   r \<in> set df \<and> l2 \<le> recorded_date r \<and> recorded_date r < h2)) \<and>
           set (df_week_of df h0 l0) \<inter> set (df_week_of df h1 l1) = {} \<and>
           set (df_week_of df h0 l0) \<inter> set (df_week_of df h2 l2) = {} \<and>
           set (df_week_of df h1 l1) \<inter> set (df_week_of df h2 l2) = {} \<and>
           (\<forall>r \<in> set df. l2 \<le> recorded_date r \<and> recorded_date r < h0 \<longrightarrow>
              (r \<in> set (df_week_of df h0 l0) \<and> r \<notin> set (df_week_of df h1 l1)
                 \<and> r \<notin> set (df_week_of df h2 l2)) \<or>
              (r \<notin> set (df_week_of df h0 l0) \<and> r \<in> set (df_week_of df h1 l1)
                 \<and> r \<notin> set (df_week_of df h2 l2)) \<or>
              (r \<notin> set (df_week_of df h0 l0) \<and> r \<notin> set (df_week_of df h1 l1)
                 \<and> r \<in> set (df_week_of df h2 l2)))"
proof -
  have "update_calendar u hover df today n_clicks children
          = append_weeks u hover df today [3 * n..<3 * (n + 1)] ch"
    unfolding update_calendar_def Let_def assms(2,3) by (rule refl)
  then have "append_weeks u hover df today [3 * n, 3 * n + 1, 3 * n + 2] ch = Inr cs"
    using assms(1) by (simp only: upt_three)
  then obtain c0 c1 c2 where cs: "cs = ch @ [c0, c1, c2]"
    and r0: "week_row u hover df today (3 * n) = Inr c0"
    and r1: "week_row u hover df today (3 * n + 1) = Inr c1"
    and r2: "week_row u hover df today (3 * n + 2) = Inr c2"
    using append_weeks_three by blast
  obtain h0 l0 where b0: "week_bounds today (3 * n) = Inr (h0, l0)"
    and i0: "row_index c0 = 3 * n"
    and f0: "week_cal c0 = create_week_cal u hover (df_week_of df h0 l0)"
    and s0: "create_week_sum u (df_week_of df h0 l0) l0 = Inr (week_summary c0)"
    using week_row_Inr [OF r0] by blast
  obtain h1 l1 where b1: "week_bounds today (3 * n + 1) = Inr (h1, l1)"
    and i1: "row_index c1 = 3 * n + 1"
    and f1: "week_cal c1 = create_week_cal u hover (df_week_of df h1 l1)"
    and s1: "create_week_sum u (df_week_of df h1 l1) l1 = Inr (week_summary c1)"
    using week_row_Inr [OF r1] by blast
  obtain h2 l2 where b2: "week_bounds today (3 * n + 2) = Inr (h2, l2)"
    and i2: "row_index c2 = 3 * n + 2"
    and f2: "week_cal c2 = create_week_cal u hover (df_week_of df h2 l2)"
    and s2: "create_week_sum u (df_week_of df h2 l2) l2 = Inr (week_summary c2)"
    using week_row_Inr [OF r2] by blast
  note part = week_buckets_partition [OF b0 b1 b2, of df]
  have cd: "customdata (week_cal c0) = map (\<lambda>r. customdata_row u (hover r) r) (df_week_of df h0 l0)"
    "customdata (week_cal c1) = map (\<lambda>r. customdata_row u (hover r) r) (df_week_of df h1 l1)"
    "customdata (week_cal c2) = map (\<lambda>r. customdata_row u (hover r) r) (df_week_of df h2 l2)"
    by (simp_all only: f0 f1 f2 create_week_cal_customdata)
  show ?thesis
    apply (rule exI [of _ c0], rule exI [of _ c1], rule exI [of _ c2])
    apply (rule exI [of _ h0], rule exI [of _ l0], rule exI [of _ h1], rule exI [of _ l1])
    apply (rule exI [of _ h2], rule exI [of _ l2])
    using cs i0 i1 i2 b0 b1 b2 f0 f1 f2 cd s0 s1 s2 part
    by blast
qed

theorem update_calendar_weeks_partition_witness:
  "update_calendar spec_util sample_hover_date [on_date 738860, on_date 738888] 738888
     (Some 1) None =
   Inr [\<lparr> row_index = 3, week_summary = empty_week_sum ''Dec 11-17'',
          week_cal = create_week_cal spec_util sample_hover_date [] \<rparr>,
        \<lparr> row_index = 4, week_summary = empty_week_sum ''Dec 4-10'',
          week_cal = create_week_cal spec_util sample_hover_date [on_date 738860] \<rparr>,
        \<lparr> row_index = 5, week_summary = empty_week_sum ''Nov 27-Dec 3'',
          week_cal = create_week_cal spec_util sample_hover_date [] \<rparr>] \<and>
   (1::nat) = (case Some 1 of None \<Rightarrow> 0 | Some k \<Rightarrow> k) \<and>
   ([]::cal_row list) = (case None of None \<Rightarrow> [] | Some c \<Rightarrow> c) \<and>
   week_bounds 738888 (3 * 1) = Inr (738872, 738865) \<and>
   week_bounds 738888 (3 * 1 + 1) = Inr (738865, 738858) \<and>
   week_bounds 738888 (3 * 1 + 2) = Inr (738858, 738851) \<and>
   weekday 738865 = 0 \<and>
   on_date 738860 \<in> set (df_week_of [on_date 738860, on_date 738888] 738865 738858) \<and>
   on_date 738860 \<notin> set (df_week_of [on_date 738860, on_date 738888] 738872 738865) \<and>
   on_date 738860 \<notin> set (df_week_of [on_date 738860, on_date 738888] 738858 738851)"
proof -
  have n: "(1::nat) = (case Some 1 of None \<Rightarrow> 0 | Some k \<Rightarrow> k)" by simp
  have c: "([]::cal_row list) = (case None of None \<Rightarrow> [] | Some c \<Rightarrow> c)" by simp
  from update_calendar_weeks_partition [OF sample_calendar n c]
  obtain h0 l0 h1 l1 h2 l2 where
    b: "week_bounds 738888 (3 * 1) = Inr (h0, l0)"
       "week_bounds 738888 (3 * 1 + 1) = Inr (h1, l1)"
       "week_bounds 738888 (3 * 1 + 2) = Inr (h2, l2)"
    and m: "weekday l0 = 0"
    and p: "\<forall>r \<in> set [on_date 738860, on_date 738888].
              l2 \<le> recorded_date r \<and> recorded_date r < h0 \<longrightarrow>
              (r \<in> set (df_week_of [on_date 738860, on_date 738888] h0 l0)
                 \<and> r \<notin> set (df_week_of [on_date 738860, on_date 738888] h1 l1)
                 \<and> r \<notin> set (df_week_of [on_date 738860, on_date 738888] h2 l2)) \<or>
              (r \<notin> set (df_week_of [on_date 738860, on_date 738888] h0 l0)
                 \<and> r \<in> set (df_week_of [on_date 738860, on_date 738888] h1 l1)
                 \<and> r \<notin> set (df_week_of [on_date 738860, on_date 738888] h2 l2)) \<or>
              (r \<notin> set (df_week_of [on_date 738860, on_date 738888] h0 l0)
                 \<and> r \<notin> set (df_week_of [on_date 738860, on_date 738888] h1 l1)
                 \<and> r \<in> set (df_week_of [on_date 738860, on_date 738888] h2 l2))"
    by blast
  have e: "week_bounds 738888 (3 * 1) = Inr (738872, 738865)"
    "week_bounds 738888 (3 * 1 + 1) = Inr (738865, 738858)"
    "week_bounds 738888 (3 * 1 + 2) = Inr (738858, 738851)"
    by (simp_all add: week_bounds_def weekday_def date_sub_def timedelta_def
        date_of_ordinal_def max_ordinal_def)
  have v: "h0 = 738872" "l0 = 738865" "h1 = 738865" "l1 = 738858" "h2 = 738858" "l2 = 738851"
    using b e by simp_all
  have f: "on_date 738860 \<in> set (df_week_of [on_date 738860, on_date 738888] 738865 738858)"
    by (simp add: df_week_of_def on_date_def sample_row_def)
  have "recorded_date (on_date 738860) = 738860" by (simp add: on_date_def sample_row_def)
  then have g: "on_date 738860 \<notin> set (df_week_of [on_date 738860, on_date 738888] 738872 738865)
      \<and> on_date 738860 \<notin> set (df_week_of [on_date 738860, on_date 738888] 738858 738851)"
    using p f unfolding v by auto
  show ?thesis using sample_calendar n c e m g f unfolding v by simp
qed

text \<open>
  C4. Evaluation at the first page (no click yet) on Wednesday 2024-01-03: the newest
  generated week is Monday 2024-01-01 up to Monday 2024-01-08, the week that is still
  running, and the activity recorded today is drawn in it on weekday slot 2.
\<close>

theorem update_calendar_newest_week_holds_today:
  "weekday (ymd2ord 2024 1 3) = 2 \<and>
   week_bounds (ymd2ord 2024 1 3) 0 = Inr (ymd2ord 2024 1 8, ymd2ord 2024 1 1) \<and>
   (\<exists>c0 c1 c2.
      update_calendar u hover_date [on_date (ymd2ord 2024 1 3)] (ymd2ord 2024 1 3) None None
        = Inr [c0, c1, c2] \<and>
      row_index c0 = 0 \<and> trace_x (week_cal c0) = [2] \<and> trace_x (week_cal c1) = [])"
  by (simp add: update_calendar_def week_row_def week_bounds_def weekday_def date_sub_def
      timedelta_def date_of_ordinal_def max_ordinal_def df_week_of_def on_date_def sample_row_def
      create_week_sum_def week_date_str_def date_add_def create_week_cal_def
      ymd2ord_def days_before_year_def days_before_month_def DAYS_BEFORE_MONTH_def is_leap_def
      Let_def upt_conv_Cons)


section \<open>Properties of the weekly summary\<close>

lemma moving_time_str_placeholder: "s < 30 \<Longrightarrow> moving_time_str s = ''--:--''"
  by (simp add: moving_time_str_def)

lemma moving_time_str_3661: "moving_time_str 3661 = ''1h1m''"
  by (simp add: moving_time_str_def py_round_def str_int_def str_nat.simps digit_char_def
      Let_def)

lemma create_week_sum_time_str:
  "create_week_sum u df_week d = Inr w \<Longrightarrow>
     time_str w = moving_time_str (sum_list (map moving_time_s df_week))"
  by (auto simp add: create_week_sum_def split: sum.splits)

text \<open>
  C2. Evaluation at a week whose moving time sums to 7199 seconds: one whole hour, and
  3599 seconds that round to 60 minutes; the minutes are not carried into the hour.
\<close>

theorem create_week_sum_7199:
  "\<exists>w. create_week_sum u [(sample_row 0 0)\<lparr>moving_time_s := 7199\<rparr>] (ymd2ord 2024 1 1) = Inr w \<and>
       time_str w = ''1h60m''"
  by (simp add: create_week_sum_def week_date_str_def date_add_def timedelta_def
      date_of_ordinal_def max_ordinal_def sample_row_def moving_time_str_def py_round_def
      str_int_def str_nat.simps digit_char_def Let_def
      ymd2ord_def days_before_year_def days_before_month_def DAYS_BEFORE_MONTH_def is_leap_def)

lemma divmod_int_unique:
  fixes a b q r :: int
  assumes "a = b * q + r" "0 \<le> r" "r < b"
  shows "a div b = q \<and> a mod b = r"
  using assms int_div_pos_eq [of a b q r] int_mod_pos_eq [of a b q r] by simp

lemma year_digits:
  fixes p :: int
  assumes "0 \<le> p"
  shows "\<exists>a b c d. p = 400 * a + 100 * b + 4 * c + d \<and> 0 \<le> a \<and> 0 \<le> b \<and> b < 4 \<and>
           0 \<le> c \<and> c < 25 \<and> 0 \<le> d \<and> d < 4"
proof -
  define a where "a = p div 400"
  define x where "x = p mod 400"
  define b where "b = x div 100"
  define z where "z = x mod 100"
  define c where "c = z div 4"
  define d where "d = z mod 4"
  have 1: "p = 400 * a + x" by (simp add: a_def x_def)
  have 2: "x = 100 * b + z" by (simp add: b_def z_def)
  have 3: "z = 4 * c + d" by (simp add: c_def d_def)
  have xr: "0 \<le> x" "x < 400" by (simp_all add: x_def)
  have zr: "0 \<le> z" "z < 100" by (simp_all add: z_def)
  have dr: "0 \<le> d" "d < 4" by (simp_all add: d_def)
  have br: "0 \<le> b" "b < 4" using xr zr 2 by linarith+
  have cr: "0 \<le> c" "c < 25" using zr dr 3 by linarith+
  have ar: "0 \<le> a" using assms by (simp add: a_def)
  have "p = 400 * a + 100 * b + 4 * c + d" using 1 2 3 by simp
  then show ?thesis using ar br cr dr by blast
qed

lemma ord2ymd_jan_feb:
  assumes "1 \<le> y" "0 \<le> k" "k < 59"
  shows "ord2ymd (days_before_year y + k + 1) =
           (y, if k < 31 then 1 else 2, if k < 31 then k + 1 else k - 30)"
proof -
  obtain a b c d where p: "y - 1 = 400 * a + 100 * b + 4 * c + d"
    and r: "0 \<le> a" "0 \<le> b" "b < 4" "0 \<le> c" "c < 25" "0 \<le> d" "d < 4"
    using year_digits [of "y - 1"] assms(1) by auto
  have q4: "(y - 1) div 4 = 100 * a + 25 * b + c"
    using divmod_int_unique [of "y - 1" 4 "100 * a + 25 * b + c" d] p r by simp
  have q100: "(y - 1) div 100 = 4 * a + b"
    using divmod_int_unique [of "y - 1" 100 "4 * a + b" "4 * c + d"] p r by simp
  have q400: "(y - 1) div 400 = a"
    using divmod_int_unique [of "y - 1" 400 a "100 * b + 4 * c + d"] p r by simp
  have dby: "days_before_year y = 146097 * a + 36524 * b + 1461 * c + 365 * d"
    unfolding days_before_year_def Let_def q4 q100 q400 using p by simp
  define n0 where "n0 = days_before_year y + k + 1 - 1"
  have s1: "n0 div 146097 = a \<and> n0 mod 146097 = 36524 * b + 1461 * c + 365 * d + k"
    using divmod_int_unique [of n0 146097 a "36524 * b + 1461 * c + 365 * d + k"] r assms
    by (simp add: n0_def dby)
  have s2: "(36524 * b + 1461 * c + 365 * d + k) div 36524 = b \<and>
            (36524 * b + 1461 * c + 365 * d + k) mod 36524 = 1461 * c + 365 * d + k"
    using divmod_int_unique [of "36524 * b + 1461 * c + 365 * d + k" 36524 b "1461 * c + 365 * d + k"]
      r assms by simp
  have s3: "(1461 * c + 365 * d + k) div 1461 = c \<and> (1461 * c + 365 * d + k) mod 1461 = 365 * d + k"
    using divmod_int_unique [of "1461 * c + 365 * d + k" 1461 c "365 * d + k"] r assms by simp
  have s4: "(365 * d + k) div 365 = d \<and> (365 * d + k) mod 365 = k"
    using divmod_int_unique [of "365 * d + k" 365 d k] r assms by simp
  have yr: "a * 400 + 1 + b * 100 + c * 4 + d = y" using p by simp
  have ne: "d \<noteq> 4" "b \<noteq> 4" using r by simp_all
  have red: "ord2ymd (n0 + 1) =
      (let leapyear = (d = 3 \<and> (c \<noteq> 24 \<or> b = 3));
           month = (k + 50) div 32;
           preceding = DAYS_BEFORE_MONTH ! nat month + (if 2 < month \<and> leapyear then 1 else 0)
       in if k < preceding
          then
            let month = month - 1;
                preceding = preceding
                  - (DAYS_IN_MONTH ! nat month + (if month = 2 \<and> leapyear then 1 else 0))
            in (y, month, k - preceding + 1)
          else (y, month, k - preceding + 1))"
    unfolding ord2ymd_def Let_def
    by (simp only: add_diff_cancel_right' s1 s2 s3 s4 yr ne simp_thms if_False)
  consider "k < 14" | "14 \<le> k" "k < 31" | "31 \<le> k" "k < 46" | "46 \<le> k"
    by linarith
  then have "ord2ymd (n0 + 1) = (y, if k < 31 then 1 else 2, if k < 31 then k + 1 else k - 30)"
  proof cases
    case 1
    then have "(k + 50) div 32 = 1" using assms by linarith
    then show ?thesis using 1 assms unfolding red
      by (simp add: Let_def DAYS_BEFORE_MONTH_def DAYS_IN_MONTH_def)
  next
    case 2
    then have "(k + 50) div 32 = 2" by linarith
    then show ?thesis using 2 unfolding red
      by (simp add: Let_def DAYS_BEFORE_MONTH_def DAYS_IN_MONTH_def)
  next
    case 3
    then have "(k + 50) div 32 = 2" by linarith
    then show ?thesis using 3 unfolding red
      by (simp add: Let_def DAYS_BEFORE_MONTH_def DAYS_IN_MONTH_def)
  next
    case 4
    then have "(k + 50) div 32 = 3" using assms by linarith
    then show ?thesis using 4 assms unfolding red
      by (simp add: Let_def DAYS_BEFORE_MONTH_def DAYS_IN_MONTH_def)
  qed
  then show ?thesis by (simp add: n0_def)
qed


lemma days_before_year_bounds:
  assumes "1 \<le> y" "y \<le> 9999"
  shows "0 \<le> days_before_year y" and "days_before_year y \<le> 3651694"
proof -
  have a: "0 \<le> (y - 1) div 4" "(y - 1) div 4 \<le> 2499" using assms by linarith+
  have b: "0 \<le> (y - 1) div 100" "(y - 1) div 100 \<le> 99" using assms by linarith+
  have c: "0 \<le> (y - 1) div 400" "(y - 1) div 400 \<le> 24" using assms by linarith+
  have d: "(y - 1) div 100 \<le> (y - 1) div 4" using assms by linarith
  have e: "(y - 1) * 365 \<le> 9998 * 365" "0 \<le> (y - 1) * 365" using assms by simp_all
  show "0 \<le> days_before_year y"
    unfolding days_before_year_def Let_def using e a b c d by linarith
  show "days_before_year y \<le> 3651694"
    unfolding days_before_year_def Let_def using e a b c by linarith
qed

lemma week_date_str_unfold:
  assumes "1 \<le> d" "d + 6 \<le> max_ordinal"
  shows "week_date_str d =
           Inr (strftime_b_d d @ ''-'' @
                (if date_month d \<noteq> date_month (d + 6) then strftime_b_d (d + 6)
                 else strftime_d (d + 6)))"
  using assms
  by (simp add: week_date_str_def date_add_def timedelta_def date_of_ordinal_def)

lemma str_int_small:
  "str_int 29 = ''29''" "str_int 4 = ''4''" "str_int 25 = ''25''" "str_int 31 = ''31''"
  by (simp_all add: str_int_def str_nat.simps digit_char_def)


text \<open>
  The label of a week, in every year for the two sample starts and in general.
\<close>

lemma week_date_str_label:
  assumes "1 \<le> y" "y \<le> 9999" "1 \<le> d" "d + 6 \<le> max_ordinal"
  shows "week_date_str (ymd2ord y 1 29) = Inr ''Jan 29-Feb 4'' \<and>
         week_date_str (ymd2ord y 1 25) = Inr ''Jan 25-31'' \<and>
         week_date_str d =
           Inr (strftime_b_d d @ ''-'' @
                (if date_month d \<noteq> date_month (d + 6) then strftime_b_d (d + 6)
                 else strftime_d (d + 6)))"
proof -
  note bd = days_before_year_bounds [OF assms(1,2)]
  have o1: "ymd2ord y 1 29 = days_before_year y + 29" "ymd2ord y 1 25 = days_before_year y + 25"
    by (simp_all add: ymd2ord_def days_before_month_def DAYS_BEFORE_MONTH_def)
  have m: "ord2ymd (days_before_year y + 29) = (y, 1, 29)"
          "ord2ymd (days_before_year y + 35) = (y, 2, 4)"
          "ord2ymd (days_before_year y + 25) = (y, 1, 25)"
          "ord2ymd (days_before_year y + 31) = (y, 1, 31)"
    using ord2ymd_jan_feb [of y 28] ord2ymd_jan_feb [of y 34]
      ord2ymd_jan_feb [of y 24] ord2ymd_jan_feb [of y 30] assms(1)
    by (simp_all add: add.commute)
  note m' = m [unfolded add.commute [of "days_before_year y"] ]
  have r1: "1 \<le> days_before_year y + 29" "days_before_year y + 29 + 6 \<le> max_ordinal"
           "1 \<le> days_before_year y + 25" "days_before_year y + 25 + 6 \<le> max_ordinal"
    using bd by (simp_all add: max_ordinal_def)
  have "week_date_str (days_before_year y + 29) = Inr ''Jan 29-Feb 4''"
    unfolding week_date_str_unfold [OF r1(1,2)]
    by (simp add: date_month_def date_day_def strftime_b_d_def strftime_d_def m m' month_abbr_def
        str_int_small)
  moreover have "week_date_str (days_before_year y + 25) = Inr ''Jan 25-31''"
    unfolding week_date_str_unfold [OF r1(3,4)]
    by (simp add: date_month_def date_day_def strftime_b_d_def strftime_d_def m m' month_abbr_def
        str_int_small)
  ultimately show ?thesis
    using week_date_str_unfold [OF assms(3,4)] by (simp add: o1)
qed

lemma create_week_sum_date_str:
  "create_week_sum u df_week d = Inr w \<Longrightarrow> week_date_str d = Inr (date_str w)"
  by (auto simp add: create_week_sum_def split: sum.splits)

lemma create_week_sum_label:
  assumes "week_date_str d = Inr s"
  shows "\<exists>w. create_week_sum u df_week d = Inr w \<and> date_str w = s"
  using assms by (simp add: create_week_sum_def)

lemma strftime_forms_differ: "x @ ''-'' @ strftime_b_d e \<noteq> x @ ''-'' @ strftime_d e"
  by (simp add: strftime_b_d_def strftime_d_def)

text \<open>
  C9. \<^verbatim>\<open>create_week_sum\<close> labels the week from its start to the start plus six days, and
  names the month a second time exactly when the two dates are in different months. In
  every year a week starting on January 29 is labelled \<open>Jan 29-Feb 4\<close> and one starting
  on January 25 \<open>Jan 25-31\<close>.
\<close>

theorem create_week_sum_date_str_label:
  assumes "1 \<le> y" "y \<le> 9999" "1 \<le> d" "d + 6 \<le> max_ordinal"
  shows "(\<exists>w. create_week_sum u df_week (ymd2ord y 1 29) = Inr w \<and>
              date_str w = ''Jan 29-Feb 4'') \<and>
         (\<exists>w. create_week_sum u df_week (ymd2ord y 1 25) = Inr w \<and>
              date_str w = ''Jan 25-31'') \<and>
         (\<exists>w. create_week_sum u df_week d = Inr w \<and>
              date_str w =
                strftime_b_d d @ ''-'' @
                  (if date_month d \<noteq> date_month (d + 6) then strftime_b_d (d + 6)
                   else strftime_d (d + 6)) \<and>
              (date_str w = strftime_b_d d @ ''-'' @ strftime_b_d (d + 6)
                 \<longleftrightarrow> date_month d \<noteq> date_month (d + 6)) \<and>
              (date_str w = strftime_b_d d @ ''-'' @ strftime_d (d + 6)
                 \<longleftrightarrow> date_month d = date_month (d + 6)))"
proof -
  note lab = week_date_str_label [OF assms]
  have a: "\<exists>w. create_week_sum u df_week (ymd2ord y 1 29) = Inr w \<and>
              date_str w = ''Jan 29-Feb 4''"
    using lab by (intro create_week_sum_label) simp
  have b: "\<exists>w. create_week_sum u df_week (ymd2ord y 1 25) = Inr w \<and>
              date_str w = ''Jan 25-31''"
    using lab by (intro create_week_sum_label) simp
  obtain w where w: "create_week_sum u df_week d = Inr w"
    and ds: "date_str w =
                strftime_b_d d @ ''-'' @
                  (if date_month d \<noteq> date_month (d + 6) then strftime_b_d (d + 6)
                   else strftime_d (d + 6))"
    using create_week_sum_label [of d _ u df_week] lab by blast
  have c1: "date_str w = strftime_b_d d @ ''-'' @ strftime_b_d (d + 6)
              \<longleftrightarrow> date_month d \<noteq> date_month (d + 6)"
    using ds strftime_forms_differ [of "strftime_b_d d" "d + 6"] by (auto split: if_splits)
  have c2: "date_str w = strftime_b_d d @ ''-'' @ strftime_d (d + 6)
              \<longleftrightarrow> date_month d = date_month (d + 6)"
    using ds strftime_forms_differ [of "strftime_b_d d" "d + 6"] by (auto split: if_splits)
  show ?thesis using a b w ds c1 c2 by blast
qed

theorem create_week_sum_date_str_label_witness:
  "(1::int) \<le> 2024 \<and> (2024::int) \<le> 9999 \<and> (1::int) \<le> 738886 \<and>
   (738886::int) + 6 \<le> max_ordinal \<and>
   (\<exists>w. create_week_sum spec_util [] (ymd2ord 2024 1 29) = Inr w \<and>
        date_str w = ''Jan 29-Feb 4'') \<and>
   (\<exists>w. create_week_sum spec_util [] (ymd2ord 2024 1 25) = Inr w \<and>
        date_str w = ''Jan 25-31'') \<and>
   (\<exists>w. create_week_sum spec_util [] 738886 = Inr w \<and> date_str w = ''Jan 1-7'')"
proof -
  have h: "(1::int) \<le> 2024" "(2024::int) \<le> 9999" "(1::int) \<le> 738886"
    "(738886::int) + 6 \<le> max_ordinal"
    by (simp_all add: max_ordinal_def)
  have l: "strftime_b_d 738886 @ ''-'' @
             (if date_month 738886 \<noteq> date_month (738886 + 6) then strftime_b_d (738886 + 6)
              else strftime_d (738886 + 6)) = ''Jan 1-7''"
    by (simp add: strftime_b_d_def strftime_d_def date_month_def date_day_def
        ord2ymd_def DAYS_BEFORE_MONTH_def DAYS_IN_MONTH_def month_abbr_def str_int_def
        str_nat.simps digit_char_def Let_def)
  show ?thesis
    using create_week_sum_date_str_label [OF h, of spec_util "[]"] h unfolding l by blast
qed

section \<open>Properties of the metric remapper\<close>

lemma map_err_length: "map_err f xs = Inr ys \<Longrightarrow> length ys = length xs"
  by (induction xs arbitrary: ys) (auto split: sum.splits)

lemma map_err_total: "(\<And>x. x \<in> set xs \<Longrightarrow> f x = Inr (g x)) \<Longrightarrow> map_err f xs = Inr (map g xs)"
  by (induction xs) auto

lemma metric_values_length:
  assumes "metric_values u fs bt cd = Inr vs"
  shows "length vs = length cd"
proof (cases "bt = ''Time''")
  case True
  then obtain ts where ts: "map_err (cell_at 5) cd = Inr ts"
    and vs: "map_err (string_to_seconds u) ts = Inr vs"
    using assms by (auto simp add: metric_values_def split: sum.splits)
  show ?thesis using map_err_length [OF ts] map_err_length [OF vs] by simp
next
  case False
  then show ?thesis
    using assms by (auto simp add: metric_values_def split: if_splits dest: map_err_length)
qed

lemma update_week_cal_metric:
  assumes "bt \<in> set metrics"
  shows "update_week_cal u fs fig bt =
           (case metric_values u fs bt (customdata fig) of
              Inl e \<Rightarrow> Inl e
            | Inr vs \<Rightarrow>
                Inr (update_layout
                       (set_bubbles fig (metric_label bt) (map href (trace_text fig)) vs
                          (metric_sizeref bt))))"
proof -
  consider "bt = ''Distance''" | "bt = ''Time''" | "bt = ''Elevation''" | "bt = ''TSS''"
    using assms by (auto simp add: metrics_def)
  then show ?thesis
  proof cases
    case 1
    then show ?thesis
      by (simp add: update_week_cal_def metric_values_def metric_label_def metric_sizeref_def
          Let_def split: sum.splits)
  next
    case 2
    then show ?thesis
      by (simp add: update_week_cal_def metric_values_def metric_label_def metric_sizeref_def
          Let_def split: sum.splits)
  next
    case 3
    then show ?thesis
      by (simp add: update_week_cal_def metric_values_def metric_label_def metric_sizeref_def
          Let_def split: sum.splits)
  next
    case 4
    then show ?thesis
      by (simp add: update_week_cal_def metric_values_def metric_label_def metric_sizeref_def
          Let_def split: sum.splits)
  qed
qed

lemma update_week_cal_other:
  assumes "bt \<notin> set metrics"
  shows "update_week_cal u fs fig bt = Inr (update_layout fig)"
  using assms by (simp add: metrics_def update_week_cal_def Let_def)

lemma href_prefix: "href (href t @ x) = href t"
proof -
  let ?P = "\<lambda>c. c \<noteq> CHR ''>''"
  have "\<And>c. c \<in> set (takeWhile ?P t) \<Longrightarrow> ?P c"
    by (drule set_takeWhileD) simp
  then have "takeWhile ?P (takeWhile ?P t @ (CHR ''>'' # x)) = takeWhile ?P t @ takeWhile ?P (CHR ''>'' # x)"
    by (rule takeWhile_append2)
  then show ?thesis by (simp add: href_def)
qed

lemma href_time_label: "href (time_label (href t, v)) = href t"
  unfolding time_label_def prod.case by (rule href_prefix)

lemma href_number_label: "href (number_label n (href t, v)) = href t"
  unfolding number_label_def prod.case by (rule href_prefix)

lemma href_metric_label: "href (metric_label bt (href t, v)) = href t"
proof -
  have "metric_label bt = time_label \<or> metric_label bt = number_label 0
          \<or> metric_label bt = number_label 1"
    by (simp add: metric_label_def)
  then show ?thesis
    using href_time_label [of t v] href_number_label [of 0 t v] href_number_label [of 1 t v]
    by (elim disjE) (simp_all only:)
qed

lemma hrefs_relabelled:
  "map href (map (metric_label bt) (zip (map href ts) vs)) = take (length vs) (map href ts)"
proof (induction ts arbitrary: vs)
  case Nil
  show ?case by simp
next
  case (Cons t ts)
  show ?case
  proof (cases vs)
    case Nil
    then show ?thesis by simp
  next
    case (Cons v ws)
    then show ?thesis using Cons.IH [of ws] by (simp add: href_metric_label)
  qed
qed

lemma zip_take_length: "zip (take (length ys) xs) ys = zip xs ys"
proof (induction xs arbitrary: ys)
  case Nil
  show ?case by simp
next
  case (Cons x xs)
  show ?case by (cases ys) (simp_all add: Cons.IH)
qed

lemma update_week_cal_same_source:
  assumes "update_week_cal u fs f bt = Inr g"
  shows "same_source g f" and "transition_duration g = Some 1000"
proof -
  show "same_source g f"
  proof (cases "bt \<in> set metrics")
    case True
    then obtain vs where vs: "metric_values u fs bt (customdata f) = Inr vs"
      and g: "g = update_layout (set_bubbles f (metric_label bt) (map href (trace_text f)) vs
                  (metric_sizeref bt))"
      using assms by (auto simp add: update_week_cal_metric split: sum.splits)
    have "length vs = length (customdata f)" using vs by (rule metric_values_length)
    then show ?thesis
      using hrefs_relabelled [of bt "trace_text f" vs]
      by (simp add: g same_source_def update_layout_def set_bubbles_def)
  next
    case False
    then show ?thesis
      using assms by (auto simp add: update_week_cal_other same_source_def update_layout_def)
  qed
  show "transition_duration g = Some 1000"
  proof (cases "bt \<in> set metrics")
    case True
    then obtain vs where
      "g = update_layout (set_bubbles f (metric_label bt) (map href (trace_text f)) vs
             (metric_sizeref bt))"
      using assms by (auto simp add: update_week_cal_metric split: sum.splits)
    then show ?thesis by (simp add: update_layout_def)
  next
    case False
    then have "g = update_layout f" using assms by (simp add: update_week_cal_other)
    then show ?thesis by (simp add: update_layout_def)
  qed
qed

lemma zip_same_prefix:
  assumes "take (length ys) xs = take (length ys) xs'"
  shows "zip xs ys = zip xs' ys"
  using zip_take_length [of ys xs] zip_take_length [of ys xs'] assms by simp

lemma figure_after_update:
  "update_layout (set_bubbles fig label hrefs values sizeref) =
     \<lparr> trace_x = trace_x fig, trace_text = map label (zip hrefs values),
       marker_size = values, marker_sizeref = sizeref, customdata = customdata fig,
       rest_annotations = rest_annotations fig, transition_duration = Some 1000 \<rparr>"
  by (cases fig) (simp add: update_layout_def set_bubbles_def)

lemma update_week_cal_reads_source:
  assumes "same_source g f" "bt \<in> set metrics"
  shows "update_week_cal u fs g bt = update_week_cal u fs f bt"
proof (cases "metric_values u fs bt (customdata f)")
  case (Inl e)
  then show ?thesis
    using assms by (simp add: update_week_cal_metric same_source_def)
next
  case (Inr vs)
  have len: "length vs = length (customdata f)" using Inr by (rule metric_values_length)
  have "take (length vs) (map href (trace_text g)) = take (length vs) (map href (trace_text f))"
    using assms(1) len by (simp add: same_source_def)
  then have z: "zip (map href (trace_text g)) vs = zip (map href (trace_text f)) vs"
    by (rule zip_same_prefix)
  have cd: "customdata g = customdata f" "trace_x g = trace_x f"
    "rest_annotations g = rest_annotations f"
    using assms(1) by (simp_all add: same_source_def)
  show ?thesis
    unfolding update_week_cal_metric [OF assms(2)] cd(1) Inr sum.case figure_after_update z cd
    by (rule refl)
qed

lemma update_week_cal_forgets_display:
  assumes "update_week_cal u fs f bt' = Inr g" "bt \<in> set metrics"
  shows "update_week_cal u fs g bt = update_week_cal u fs f bt"
  using update_week_cal_reads_source [OF update_week_cal_same_source(1) [OF assms(1)] assms(2)] .

lemma digit_char_not_gt: "d < 10 \<Longrightarrow> digit_char d \<noteq> CHR ''>''"
proof -
  assume "d < 10"
  then have "d < length ''0123456789''" by simp
  then have "''0123456789'' ! d \<in> set ''0123456789''" by (rule nth_mem)
  moreover have "CHR ''>'' \<notin> set ''0123456789''" by simp
  ultimately show ?thesis unfolding digit_char_def by metis
qed

lemma str_nat_no_gt: "CHR ''>'' \<notin> set (str_nat n)"
proof (induction n rule: str_nat.induct)
  case (1 n)
  show ?case
  proof (cases "n < 10")
    case True
    then show ?thesis using digit_char_not_gt [of n] by (simp add: str_nat.simps [of n])
  next
    case False
    have "n mod 10 < 10" by simp
    then have "digit_char (n mod 10) \<noteq> CHR ''>''" by (rule digit_char_not_gt)
    then show ?thesis using False 1 by (simp add: str_nat.simps [of n])
  qed
qed

lemma str_int_no_gt: "CHR ''>'' \<notin> set (str_int i)"
  using str_nat_no_gt by (simp add: str_int_def)

lemma href_anchor: "href (anchor r @ x) = anchor r"
proof -
  let ?P = "\<lambda>c. c \<noteq> CHR ''>''"
  let ?pre = "''<a href=\"/dash-saved-activity/'' @ str_int (id_col r) @ ''\"''"
  have "\<And>c. c \<in> set ?pre \<Longrightarrow> ?P c"
    using str_int_no_gt [of "id_col r"] by auto
  then have "takeWhile ?P (?pre @ (CHR ''>'' # x)) = ?pre @ takeWhile ?P (CHR ''>'' # x)"
    by (rule takeWhile_append2)
  then show ?thesis by (simp add: href_def anchor_def)
qed

lemma create_week_cal_text:
  "trace_text (create_week_cal u hover df_week) =
     map (\<lambda>r. number_label 1 (anchor r, distance_m r / M_PER_MI u)) df_week"
  by (simp add: create_week_cal_def number_label_def anchor_def)

lemma create_week_cal_distance_values:
  "metric_values u fs ''Distance'' (customdata (create_week_cal u hover df_week))
     = Inr (map (\<lambda>r. distance_m r / M_PER_MI u) df_week)"
proof -
  have "map_err (float_cell fs 4) (map (\<lambda>r. customdata_row u (hover r) r) df_week)
          = Inr (map (\<lambda>r. distance_m r / M_PER_MI u) df_week)"
    by (induction df_week)
      (simp_all add: float_cell_def cell_at_def customdata_row_def py_float_def)
  then show ?thesis by (simp add: metric_values_def create_week_cal_def)
qed

lemma relabel_initial:
  "map (number_label 1)
     (zip (map href (map (\<lambda>r. number_label 1 (anchor r, distance_m r / M_PER_MI u)) df_week))
          (map (\<lambda>r. distance_m r / M_PER_MI u) df_week))
   = map (\<lambda>r. number_label 1 (anchor r, distance_m r / M_PER_MI u)) df_week"
  by (induction df_week) (simp_all add: number_label_def href_anchor)

lemma update_initial_distance:
  "update_week_cal u fs (create_week_cal u hover df_week) ''Distance'' =
     Inr ((create_week_cal u hover df_week)
            \<lparr> marker_size := map (\<lambda>r. distance_m r / M_PER_MI u) df_week,
              marker_sizeref := 26.2 / (0.5 * 100 ^ 2),
              transition_duration := Some 1000 \<rparr>)"
proof -
  have m: "''Distance'' \<in> set metrics" by (simp add: metrics_def)
  have t: "trace_text (create_week_cal u hover df_week)
             = map (metric_label ''Distance'')
                 (zip (map href (trace_text (create_week_cal u hover df_week)))
                      (map (\<lambda>r. distance_m r / M_PER_MI u) df_week))"
    using relabel_initial [of u df_week]
    by (simp add: create_week_cal_text metric_label_def)
  show ?thesis
    unfolding update_week_cal_metric [OF m] create_week_cal_distance_values sum.case
      update_layout_def set_bubbles_def t [symmetric]
    by (simp add: metric_sizeref_def)
qed

lemmas eval_defs = create_week_cal_def customdata_row_def spec_util_def sample_hover_date_def
  sample_activity_def weekday_def quotient_def format_f_def py_round_def str_int_def
  str_nat.simps digit_char_def Let_def

lemma sample_fig_eq:
  "sample_fig =
     \<lparr> trace_x = [2],
       trace_text = [''<a href=\"/dash-saved-activity/7\">5.0</a>''],
       marker_size = [8046.7],
       marker_sizeref = (1609.34 * 26.2) / (0.5 * 100 ^ 2),
       customdata =
         [ [Str ''Wed, Jan 3, 2024 7:00 AM'', Num 7, Str ''Run'', Str ''Easy ...'', Num 5,
            Str ''3661'', Str [], Str [], Num 328.084, Num 50] ],
       rest_annotations = [0, 1, 3, 4, 5, 6],
       transition_duration = None \<rparr>"
  by (simp add: sample_fig_def eval_defs)

lemmas remap_defs = update_week_cal_def update_layout_def set_bubbles_def href_def
  float_cell_def cell_at_def py_float_def number_label_def time_label_def py_mod_def
  format_f_def py_round_def str_int_def str_nat.simps digit_char_def Let_def

lemma sample_remaps:
  "update_week_cal spec_util no_float_literals sample_fig ''Distance'' = Inr sample_fig_distance"
  "update_week_cal spec_util no_float_literals sample_fig ''Elevation'' = Inr sample_fig_elevation"
  "update_week_cal spec_util no_float_literals sample_fig ''Time'' = Inr sample_fig_time"
  "update_week_cal spec_util no_float_literals sample_fig_distance ''Time'' = Inr sample_fig_time"
  "update_week_cal spec_util no_float_literals sample_fig_elevation ''Distance''
     = Inr sample_fig_distance"
  unfolding sample_fig_distance_def sample_fig_elevation_def sample_fig_time_def sample_fig_eq
  by (simp_all add: remap_defs spec_util_def digit_value_def)

text \<open>
  C5. A selector value outside Distance, Time, Elevation and TSS raises nothing and
  leaves every bubble as it is: sizes, reference size, labels and cells are unchanged;
  only the layout's transition duration is set.
\<close>

theorem update_week_cal_unknown_metric:
  assumes "bubble_type \<notin> {''Distance'', ''Time'', ''Elevation'', ''TSS''}"
  shows "\<exists>g. update_week_cal u float_str fig bubble_type = Inr g \<and>
             marker_size g = marker_size fig \<and> marker_sizeref g = marker_sizeref fig \<and>
             trace_text g = trace_text fig \<and> customdata g = customdata fig \<and>
             g = fig\<lparr> transition_duration := Some 1000 \<rparr>"
proof -
  have "bubble_type \<notin> set metrics" using assms by (simp add: metrics_def)
  then show ?thesis by (simp add: update_week_cal_other update_layout_def)
qed

theorem update_week_cal_unknown_metric_witness:
  "''Pace'' \<notin> {''Distance'', ''Time'', ''Elevation'', ''TSS''} \<and>
   update_week_cal spec_util no_float_literals sample_fig ''Pace''
     = Inr (sample_fig\<lparr> transition_duration := Some 1000 \<rparr>)"
  using update_week_cal_unknown_metric [of "''Pace''" spec_util no_float_literals sample_fig]
  by auto

text \<open>
  C7. Remapping to Distance a figure that was just remapped to Distance gives the same
  outcome as the first remap: the outcome depends on the stored cells and the anchors,
  not on what the figure displays.
\<close>

theorem update_week_cal_distance_idempotent:
  "then_update u float_str (update_week_cal u float_str f ''Distance'') ''Distance''
     = update_week_cal u float_str f ''Distance''"
proof (cases "update_week_cal u float_str f ''Distance''")
  case (Inl e)
  then show ?thesis by (simp add: then_update_def)
next
  case (Inr g)
  have m: "''Distance'' \<in> set metrics" by (simp add: metrics_def)
  show ?thesis
    using update_week_cal_forgets_display [OF Inr m] Inr by (simp add: then_update_def)
qed

theorem update_week_cal_distance_idempotent_witness:
  "then_update spec_util no_float_literals
     (update_week_cal spec_util no_float_literals sample_fig ''Distance'') ''Distance''
     = Inr sample_fig_distance"
  using update_week_cal_distance_idempotent [of spec_util no_float_literals sample_fig]
  by (simp add: sample_remaps(1))

text \<open>
  C6, as stated, fails on the initially rendered figure: its sizes are the distances in
  metres (8046.7 for the sample activity), and after Distance to Elevation and back to
  Distance the size is the distance in miles (5).
\<close>

theorem update_week_cal_round_trip_initial_counterexample:
  "update_week_cal spec_util no_float_literals sample_fig ''Elevation''
     = Inr sample_fig_elevation \<and>
   update_week_cal spec_util no_float_literals sample_fig_elevation ''Distance''
     = Inr sample_fig_distance \<and>
   marker_size sample_fig = [8046.7] \<and>
   marker_size sample_fig_distance = [5] \<and>
   marker_size sample_fig_distance \<noteq> marker_size sample_fig"
proof -
  have a: "marker_size sample_fig = [8046.7]" by (simp add: sample_fig_eq)
  have b: "marker_size sample_fig_distance = [5]" by (simp add: sample_fig_distance_def)
  show ?thesis unfolding a b using sample_remaps(2,5) by simp
qed

text \<open>
  C6, amended. From a figure \<open>g\<close> that the remapper produced for a metric \<open>m\<close>, switching
  to \<open>m'\<close> and back to \<open>m\<close> gives \<open>g\<close> again, sizes, reference size and labels included.
  From the initially rendered figure, switching to \<open>m'\<close> and back to Distance gives the
  initial figure's labels, with the sizes in miles and the reference size 26.2 / 5000.
\<close>

theorem update_week_cal_round_trip:
  assumes "m \<in> {''Distance'', ''Time'', ''Elevation'', ''TSS''}"
      and "m' \<in> {''Distance'', ''Time'', ''Elevation'', ''TSS''}"
      and "update_week_cal u float_str f m = Inr g"
      and "update_week_cal u float_str g m' = Inr h"
      and "update_week_cal u float_str (create_week_cal u hover df_week) m' = Inr h0"
      and "M_PER_MI u \<noteq> 0"
  shows "update_week_cal u float_str h m = Inr g \<and>
         update_week_cal u float_str h0 ''Distance'' =
           Inr ((create_week_cal u hover df_week)
                  \<lparr> marker_size := map (\<lambda>r. distance_m r / M_PER_MI u) df_week,
                    marker_sizeref := 26.2 / (0.5 * 100 ^ 2),
                    transition_duration := Some 1000 \<rparr>)"
proof -
  have m: "m \<in> set metrics" using assms(1) by (simp add: metrics_def)
  have d: "''Distance'' \<in> set metrics" by (simp add: metrics_def)
  have "update_week_cal u float_str h m = update_week_cal u float_str g m"
    using assms(4) m by (rule update_week_cal_forgets_display)
  also have "\<dots> = update_week_cal u float_str f m"
    using assms(3) m by (rule update_week_cal_forgets_display)
  finally have one: "update_week_cal u float_str h m = Inr g" using assms(3) by simp
  have "update_week_cal u float_str h0 ''Distance''
          = update_week_cal u float_str (create_week_cal u hover df_week) ''Distance''"
    using assms(5) d by (rule update_week_cal_forgets_display)
  then show ?thesis using one by (simp only: update_initial_distance simp_thms)
qed

theorem update_week_cal_round_trip_witness:
  "''Distance'' \<in> {''Distance'', ''Time'', ''Elevation'', ''TSS''} \<and>
   ''Time'' \<in> {''Distance'', ''Time'', ''Elevation'', ''TSS''} \<and>
   update_week_cal spec_util no_float_literals sample_fig ''Distance''
     = Inr sample_fig_distance \<and>
   update_week_cal spec_util no_float_literals sample_fig_distance ''Time''
     = Inr sample_fig_time \<and>
   update_week_cal spec_util no_float_literals
       (create_week_cal spec_util sample_hover_date [sample_activity]) ''Time''
     = Inr sample_fig_time \<and>
   M_PER_MI spec_util \<noteq> 0 \<and>
   update_week_cal spec_util no_float_literals sample_fig_time ''Distance''
     = Inr sample_fig_distance"
proof -
  have nz: "M_PER_MI spec_util \<noteq> 0" by (simp add: spec_util_def)
  show ?thesis
    using update_week_cal_round_trip [of "''Distance''" "''Time''" spec_util no_float_literals
        sample_fig sample_fig_distance sample_fig_time sample_hover_date "[sample_activity]"
        sample_fig_time]
      sample_remaps(1,3,4) nz
    by (simp add: sample_fig_def [symmetric])
qed

end
